theory Spec2Isabelle
  imports
    Complex_Main
    "HOL-Library.Char_ord"
    "HOL-Library.List_Lexorder"
    "HOL-Library.Product_Lexorder"
    "HOL-Library.Multiset"
begin

section \<open>Values of the Python run time\<close>

text \<open>
  A float64 scalar is a real number, one of the two infinities, or NaN. Overflow is
  outside the model, and finite arithmetic is exact, with one exception: the mean of a
  series (\<open>pd_mean\<close> below) rounds every partial sum and the quotient as float64
  does, because \<open>ghg\<close> and \<open>glg\<close> are means of values that may be the same
  values added in a different order. A zero denominator is the positive zero (the
  denominators of \<open>stats.py\<close> are counts, variances and sums of squares).
\<close>

datatype float = Fin real | PInf | NInf | NaN

fun fneg :: "float \<Rightarrow> float" where
  "fneg (Fin a) = Fin (- a)"
| "fneg PInf = NInf"
| "fneg NInf = PInf"
| "fneg NaN = NaN"

fun fadd :: "float \<Rightarrow> float \<Rightarrow> float" where
  "fadd (Fin a) (Fin b) = Fin (a + b)"
| "fadd NaN y = NaN"
| "fadd x NaN = NaN"
| "fadd PInf NInf = NaN"
| "fadd NInf PInf = NaN"
| "fadd PInf y = PInf"
| "fadd x PInf = PInf"
| "fadd NInf y = NInf"
| "fadd x NInf = NInf"

definition fsub :: "float \<Rightarrow> float \<Rightarrow> float" where
  "fsub x y = fadd x (fneg y)"

fun fsgn :: "float \<Rightarrow> int" where
  "fsgn (Fin a) = (if a < 0 then - 1 else if a = 0 then 0 else 1)"
| "fsgn PInf = 1"
| "fsgn NInf = - 1"
| "fsgn NaN = 0"

fun fmul :: "float \<Rightarrow> float \<Rightarrow> float" where
  "fmul (Fin a) (Fin b) = Fin (a * b)"
| "fmul NaN y = NaN"
| "fmul x NaN = NaN"
| "fmul x y =
     (if fsgn x * fsgn y = 0 then NaN else if 0 < fsgn x * fsgn y then PInf else NInf)"

fun fdiv :: "float \<Rightarrow> float \<Rightarrow> float" where
  "fdiv (Fin a) (Fin b) =
     (if b = 0 then (if a = 0 then NaN else if 0 < a then PInf else NInf)
      else Fin (a / b))"
| "fdiv NaN y = NaN"
| "fdiv x NaN = NaN"
| "fdiv (Fin a) y = Fin 0"
| "fdiv x (Fin b) = (if 0 \<le> b then x else fneg x)"
| "fdiv x y = NaN"

text \<open>\<open>numpy.sqrt\<close> and \<open>numpy.log\<close> on a float64 scalar.\<close>

fun np_sqrt :: "float \<Rightarrow> float" where
  "np_sqrt (Fin a) = (if a < 0 then NaN else Fin (sqrt a))"
| "np_sqrt PInf = PInf"
| "np_sqrt NInf = NaN"
| "np_sqrt NaN = NaN"

fun np_log :: "float \<Rightarrow> float" where
  "np_log (Fin a) = (if a < 0 then NaN else if a = 0 then NInf else Fin (ln a))"
| "np_log PInf = PInf"
| "np_log NInf = NaN"
| "np_log NaN = NaN"

text \<open>The comparison \<open>x > y\<close> of two floats: false as soon as one is NaN.\<close>

fun fgt :: "float \<Rightarrow> float \<Rightarrow> bool" where
  "fgt (Fin a) (Fin b) = (b < a)"
| "fgt NaN y = False"
| "fgt x NaN = False"
| "fgt PInf y = (y \<noteq> PInf)"
| "fgt x NInf = (x \<noteq> NInf)"
| "fgt x y = False"

text \<open>
  Python's built-in \<open>max(a, b)\<close> keeps its first argument unless the second is
  greater, so \<open>max(0.0, nan)\<close> is \<open>0.0\<close>.
\<close>

definition py_max :: "float \<Rightarrow> float \<Rightarrow> float" where
  "py_max a b = (if fgt b a then b else a)"

text \<open>A missing entry read as a scalar is NaN.\<close>

fun to_float :: "real option \<Rightarrow> float" where
  "to_float (Some r) = Fin r"
| "to_float None = NaN"

text \<open>The exceptions that \<open>stats.py\<close> raises itself or lets through.\<close>

datatype error =
    ValueError string
  | KeyError string
  | AttributeError string
  | ZeroDivisionError

section \<open>Time stamps and series\<close>

text \<open>
  A pandas time stamp: the day number counted from 1970-01-01 and the nanoseconds into
  that day.
\<close>

datatype timestamp = Timestamp (dayno: int) (tod: nat)

text \<open>
  A series is a list of (time stamp, value) pairs in index order; the value \<open>None\<close>
  is a missing entry (pandas stores it as NaN). The values of a series are real numbers.
\<close>

type_synonym series = "(timestamp \<times> real option) list"

subsection \<open>Calendar fields of a time stamp\<close>

text \<open>
  The proleptic Gregorian date of a day number, as pandas computes the fields
  \<open>year\<close>, \<open>month\<close> and \<open>day\<close> of a time stamp, and the day number of a
  date (used to write inputs down).
\<close>

definition civil_from_days :: "int \<Rightarrow> int \<times> int \<times> int" where
  "civil_from_days z =
     (let z1 = z + 719468;
          era = z1 div 146097;
          doe = z1 mod 146097;
          yoe = (doe - doe div 1460 + doe div 36524 - doe div 146096) div 365;
          doy = doe - (365 * yoe + yoe div 4 - yoe div 100);
          mp = (5 * doy + 2) div 153;
          d = doy - (153 * mp + 2) div 5 + 1;
          m = (if mp < 10 then mp + 3 else mp - 9);
          y = yoe + era * 400
      in (if m \<le> 2 then y + 1 else y, m, d))"

definition days_from_civil :: "int \<Rightarrow> int \<Rightarrow> int \<Rightarrow> int" where
  "days_from_civil y m d =
     (let y1 = (if m \<le> 2 then y - 1 else y);
          era = y1 div 400;
          yoe = y1 mod 400;
          doy = (153 * (if 2 < m then m - 3 else m + 9) + 2) div 5 + d - 1;
          doe = yoe * 365 + yoe div 4 - yoe div 100 + doy
      in era * 146097 + doe - 719468)"

definition year_of :: "timestamp \<Rightarrow> int" where
  "year_of x = fst (civil_from_days (dayno x))"

definition month_of :: "timestamp \<Rightarrow> int" where
  "month_of x = fst (snd (civil_from_days (dayno x)))"

definition day_of :: "timestamp \<Rightarrow> int" where
  "day_of x = snd (snd (civil_from_days (dayno x)))"

text \<open>Midnight of a calendar date.\<close>

definition date :: "int \<Rightarrow> int \<Rightarrow> int \<Rightarrow> timestamp" where
  "date y m d = Timestamp (days_from_civil y m d) 0"

subsection \<open>Reductions of pandas and numpy\<close>

text \<open>The values that are present: pandas reductions skip the missing ones.\<close>

fun valid :: "real option list \<Rightarrow> real list" where
  "valid [] = []"
| "valid (None # xs) = valid xs"
| "valid (Some r # xs) = r # valid xs"

text \<open>
  Rounding to float64: the nearest number with 53 significant bits, a tie going to the
  even one (\<open>rhe\<close> rounds a real number to an integer that way). The exponent is
  not bounded, so overflow and the subnormal numbers are outside the model.
\<close>

definition rhe :: "real \<Rightarrow> int" where
  "rhe q =
     (let f = \<lfloor>q\<rfloor>; r = q - of_int f
      in if r < 1 / 2 then f
         else if 1 / 2 < r then f + 1
         else if even f then f else f + 1)"

definition round53 :: "real \<Rightarrow> real" where
  "round53 x =
     (if x = 0 then 0
      else
        let e = \<lfloor>log 2 \<bar>x\<bar>\<rfloor>;
            u = 2 powr (of_int e - 52)
        in sgn x * (of_int (rhe (\<bar>x\<bar> / u)) * u))"

text \<open>
  The float64 sum of the values present, as \<open>Series.mean()\<close> forms it: it starts
  from 0 and adds the values from the first to the last, rounding after every addition.
  numpy adds up to seven values in this order, which covers the three values of
  \<open>mean_high\<close> and \<open>mean_low\<close>; it adds a longer input in blocks of eight,
  which changes the roundings of the sum but not that each of them is monotone.
\<close>

definition sum64 :: "real list \<Rightarrow> real" where
  "sum64 vs = foldl (\<lambda>a v. round53 (a + v)) 0 vs"

text \<open>
  \<open>Series.mean()\<close>: the float64 sum of the values present, divided by their number and
  rounded; NaN when no value is present.
\<close>

definition pd_mean :: "real option list \<Rightarrow> real option" where
  "pd_mean xs =
     (let vs = valid xs
      in if vs = [] then None else Some (round53 (sum64 vs / real (length vs))))"

text \<open>\<open>Series.median()\<close>.\<close>

definition pd_median :: "real option list \<Rightarrow> real option" where
  "pd_median xs =
     (let vs = sort (valid xs); n = length vs
      in if n = 0 then None
         else if odd n then Some (vs ! (n div 2))
         else Some ((vs ! (n div 2 - 1) + vs ! (n div 2)) / 2))"

text \<open>
  \<open>Series.quantile(q)\<close> with the default linear interpolation between the two
  nearest ranks; pandas rejects a \<open>q\<close> outside [0, 1].
\<close>

definition pd_quantile :: "real \<Rightarrow> real option list \<Rightarrow> error + real option" where
  "pd_quantile q xs =
     (if q < 0 \<or> 1 < q
      then Inl (ValueError ''percentiles should all be in the interval [0, 1]'')
      else
        let vs = sort (valid xs); n = length vs
        in if n = 0 then Inr None
           else
             let h = real (n - 1) * q; lo = nat \<lfloor>h\<rfloor>; hi = nat \<lceil>h\<rceil>
             in Inr (Some (vs ! lo + (vs ! hi - vs ! lo) * (h - real lo))))"

text \<open>
  \<open>numpy.var\<close> of a series hands over to \<open>Series.var(ddof=0)\<close>: the mean squared
  deviation of the values present.
\<close>

definition np_var :: "real option list \<Rightarrow> real option" where
  "np_var xs =
     (let vs = valid xs
      in if vs = [] then None
         else
           let m = sum_list vs / real (length vs)
           in Some (sum_list (map (\<lambda>v. (v - m)\<^sup>2) vs) / real (length vs)))"

text \<open>
  Python's built-in \<open>sum\<close> over the values of a series: it starts from the integer 0
  and adds from the left; a missing value makes the sum NaN.
\<close>

definition py_sum :: "real option list \<Rightarrow> float" where
  "py_sum xs = foldl fadd (Fin 0) (map to_float xs)"

text \<open>\<open>numpy.any\<close> of a boolean series.\<close>

definition np_any :: "bool list \<Rightarrow> bool" where
  "np_any bs = (True \<in> set bs)"

text \<open>\<open>series.loc[mask]\<close> with a boolean mask on the same index.\<close>

definition loc :: "series \<Rightarrow> bool list \<Rightarrow> series" where
  "loc s flags = map fst (filter snd (zip s flags))"

subsection \<open>Resampling\<close>

text \<open>
  \<open>series.resample('d')\<close> followed by a reduction: one entry for every day from the
  first to the last day of the index, stamped at midnight, holding the reduction of the
  values of that day (missing when the day has none).
\<close>

definition resample_d :: "(real option list \<Rightarrow> real option) \<Rightarrow> series \<Rightarrow> series" where
  "resample_d agg s =
     (if s = [] then []
      else
        let ds = map (\<lambda>(t, v). dayno t) s
        in map (\<lambda>d. (Timestamp d 0, agg (map snd (filter (\<lambda>(t, v). dayno t = d) s))))
             [Min (set ds) .. Max (set ds)])"

text \<open>
  \<open>series.resample('a').apply(year_agg)\<close>: one entry for every calendar year from the
  first to the last year of the index, holding \<open>year_agg\<close> of the part of the series
  in that year. The entry is keyed by the year (pandas labels it with 31 December).
\<close>

type_synonym yearly = "(int \<times> real option) list"

definition resample_a :: "(series \<Rightarrow> real option) \<Rightarrow> series \<Rightarrow> yearly" where
  "resample_a year_agg s =
     (if s = [] then []
      else
        let ys = map (\<lambda>(t, v). year_of t) s
        in map (\<lambda>y. (y, year_agg (filter (\<lambda>(t, v). year_of t = y) s)))
             [Min (set ys) .. Max (set ys)])"

subsection \<open>Filling\<close>

definition dropna :: "series \<Rightarrow> series" where
  "dropna s = filter (\<lambda>(t, v). v \<noteq> None) s"

text \<open>
  Forward fill: a missing entry takes the last value present before it, for at most
  \<open>lmt\<close> entries in a row when a limit is given. \<open>prev\<close> is that value and
  \<open>k\<close> the number of missing entries seen since.
\<close>

fun ffill_from :: "real option \<Rightarrow> nat \<Rightarrow> nat option \<Rightarrow> series \<Rightarrow> series" where
  "ffill_from prev k lmt [] = []"
| "ffill_from prev k lmt ((t, Some v) # s) = (t, Some v) # ffill_from (Some v) 0 lmt s"
| "ffill_from prev k lmt ((t, None) # s) =
     (t, if (case lmt of None \<Rightarrow> True | Some l \<Rightarrow> k < l) then prev else None)
       # ffill_from prev (Suc k) lmt s"

text \<open>\<open>Series.ffill(limit)\<close> and \<open>Series.bfill(limit)\<close>; pandas rejects a limit below 1.\<close>

definition pd_ffill :: "int option \<Rightarrow> series \<Rightarrow> error + series" where
  "pd_ffill limit s =
     (case limit of
        None \<Rightarrow> Inr (ffill_from None 0 None s)
      | Some l \<Rightarrow>
          if l \<le> 0 then Inl (ValueError ''Limit must be greater than 0'')
          else Inr (ffill_from None 0 (Some (nat l)) s))"

definition pd_bfill :: "int option \<Rightarrow> series \<Rightarrow> error + series" where
  "pd_bfill limit s =
     (case pd_ffill limit (rev s) of Inl e \<Rightarrow> Inl e | Inr r \<Rightarrow> Inr (rev r))"


text \<open>
  \<open>Series.interpolate(method, limit)\<close> is a parameter of the functions that reach
  it: \<open>gxg\<close> hands any fill method other than \<open>None\<close>, "ffill" and "bfill" to it
  without looking at the name. The instance below is the method "linear" alone, used for
  evaluation: values are taken as equally spaced; a run of missing entries between two
  values lies on the line through them, a run after the last value repeats it, a run
  before the first value stays missing, and at most \<open>limit\<close> entries of a run are
  filled, counted from its start.
\<close>

type_synonym interpolation = "string \<Rightarrow> int option \<Rightarrow> series \<Rightarrow> error + series"

fun next_valid :: "series \<Rightarrow> (nat \<times> real) option" where
  "next_valid [] = None"
| "next_valid ((t, Some v) # s) = Some (0, v)"
| "next_valid ((t, None) # s) =
     (case next_valid s of None \<Rightarrow> None | Some (k, v) \<Rightarrow> Some (Suc k, v))"

fun interp_from :: "real option \<Rightarrow> nat \<Rightarrow> nat option \<Rightarrow> series \<Rightarrow> series" where
  "interp_from prev j lmt [] = []"
| "interp_from prev j lmt ((t, Some v) # s) = (t, Some v) # interp_from (Some v) 0 lmt s"
| "interp_from prev j lmt ((t, None) # s) =
     (t, case prev of
           None \<Rightarrow> None
         | Some a \<Rightarrow>
             if (case lmt of None \<Rightarrow> True | Some l \<Rightarrow> j < l)
             then (case next_valid s of
                     None \<Rightarrow> Some a
                   | Some (k, b) \<Rightarrow> Some (a + (b - a) * real (j + 1) / real (j + k + 2)))
             else None)
       # interp_from prev (Suc j) lmt s"

definition interpolate_linear :: interpolation where
  "interpolate_linear method limit s =
     (if method = ''linear'' then
        (case limit of
           None \<Rightarrow> Inr (interp_from None 0 None s)
         | Some l \<Rightarrow>
             if l \<le> 0 then Inl (ValueError ''Limit must be greater than 0'')
             else Inr (interp_from None 0 (Some (nat l)) s))
      else Inl (ValueError (''method not available: '' @ method)))"

section \<open>The model object behind \<open>self.ml\<close>\<close>

text \<open>
  \<open>Statistics.__init__\<close> keeps a reference to the model. Its class is not part of
  \<open>stats.py\<close>; the record holds what \<open>stats.py\<close> reads from it: the four series
  accessors, each taking \<open>tmin\<close> and \<open>tmax\<close>, the parameter table with its
  \<open>vary\<close> column, and the attribute \<open>nparam\<close>.
\<close>

record parameter =
  pvalue :: real
  vary :: bool

record model =
  observations :: "timestamp option \<Rightarrow> timestamp option \<Rightarrow> series"
  simulate :: "timestamp option \<Rightarrow> timestamp option \<Rightarrow> series"
  residuals :: "timestamp option \<Rightarrow> timestamp option \<Rightarrow> series"
  innovations :: "timestamp option \<Rightarrow> timestamp option \<Rightarrow> series"
  parameters :: "(string \<times> parameter) list"
  nparam :: int

section \<open>\<open>Statistics.bykey\<close>\<close>

definition bykey ::
  "model \<Rightarrow> string \<Rightarrow> timestamp option \<Rightarrow> timestamp option \<Rightarrow> error + series" where
  "bykey ml key tmin tmax =
     (if key = ''observations'' then Inr (observations ml tmin tmax)
      else if key = ''simulated'' then Inr (simulate ml tmin tmax)
      else if key = ''residuals'' then Inr (residuals ml tmin tmax)
      else if key = ''innovations'' then Inr (innovations ml tmin tmax)
      else Inl (ValueError (''no timeseries with key '' @ key)))"


section \<open>The statistical functions\<close>

text \<open>\<open>series ** 2\<close> and \<open>series - scalar\<close>, entry by entry.\<close>

definition pow2 :: "real option list \<Rightarrow> real option list" where
  "pow2 xs = map (map_option (\<lambda>x. x\<^sup>2)) xs"

definition sub_scalar :: "real option list \<Rightarrow> real option \<Rightarrow> real option list" where
  "sub_scalar xs m =
     map (\<lambda>x. case (x, m) of (Some a, Some b) \<Rightarrow> Some (a - b) | _ \<Rightarrow> None) xs"

text \<open>
  \<open>rmse\<close> and \<open>rmsi\<close>: \<open>sum\<close> of an empty series is the integer 0 and \<open>N\<close> is
  the integer 0, so the division raises.
\<close>

definition rmse :: "model \<Rightarrow> timestamp option \<Rightarrow> timestamp option \<Rightarrow> error + float" where
  "rmse ml tmin tmax =
     (let res = map snd (residuals ml tmin tmax); N = length res
      in if N = 0 then Inl ZeroDivisionError
         else Inr (np_sqrt (fdiv (py_sum (pow2 res)) (Fin (real N)))))"

definition rmsi :: "model \<Rightarrow> timestamp option \<Rightarrow> timestamp option \<Rightarrow> error + float" where
  "rmsi ml tmin tmax =
     (let res = map snd (innovations ml tmin tmax); N = length res
      in if N = 0 then Inl ZeroDivisionError
         else Inr (np_sqrt (fdiv (py_sum (pow2 res)) (Fin (real N)))))"

definition sse :: "model \<Rightarrow> timestamp option \<Rightarrow> timestamp option \<Rightarrow> float" where
  "sse ml tmin tmax = (let res = map snd (residuals ml tmin tmax) in py_sum (pow2 res))"

definition avg_dev :: "model \<Rightarrow> timestamp option \<Rightarrow> timestamp option \<Rightarrow> float" where
  "avg_dev ml tmin tmax = (let res = map snd (residuals ml tmin tmax) in to_float (pd_mean res))"

definition evp :: "model \<Rightarrow> timestamp option \<Rightarrow> timestamp option \<Rightarrow> float" where
  "evp ml tmin tmax =
     (let res = map snd (residuals ml tmin tmax);
          obs = map snd (observations ml tmin tmax)
      in py_max (Fin 0)
           (fmul (fdiv (fsub (to_float (np_var obs)) (to_float (np_var res)))
                       (to_float (np_var obs)))
                 (Fin 100)))"

text \<open>
  \<open>numpy.corrcoef(x, y)[0, 1]\<close> for two arrays of one length: the covariance over the
  two standard deviations (each with \<open>N - 1\<close> in the denominator), clipped to [-1, 1];
  NaN when a value is missing or fewer than two values are given.
\<close>

definition np_corrcoef :: "real option list \<Rightarrow> real option list \<Rightarrow> float" where
  "np_corrcoef x y =
     (if None \<in> set x \<or> None \<in> set y \<or> length x < 2 then NaN
      else
        let xs = valid x; ys = valid y; n = real (length xs);
            mx = sum_list xs / n; my = sum_list ys / n;
            cxy = sum_list (map2 (\<lambda>a b. (a - mx) * (b - my)) xs ys) / (n - 1);
            cxx = sum_list (map (\<lambda>a. (a - mx)\<^sup>2) xs) / (n - 1);
            cyy = sum_list (map (\<lambda>b. (b - my)\<^sup>2) ys) / (n - 1)
        in case fdiv (fdiv (Fin cxy) (np_sqrt (Fin cxx))) (np_sqrt (Fin cyy)) of
             Fin r \<Rightarrow> Fin (min 1 (max (- 1) r))
           | other \<Rightarrow> other)"

text \<open>
  \<open>sim[obs.index]\<close>: the entries of \<open>sim\<close> at the time stamps of \<open>obs\<close>, in that
  order; a time stamp that \<open>sim\<close> does not have raises KeyError.
\<close>

fun select_index :: "series \<Rightarrow> timestamp list \<Rightarrow> error + series" where
  "select_index sim [] = Inr []"
| "select_index sim (t # ts) =
     (case map_of sim t of
        None \<Rightarrow> Inl (KeyError ''not in index'')
      | Some v \<Rightarrow>
          (case select_index sim ts of Inl e \<Rightarrow> Inl e | Inr r \<Rightarrow> Inr ((t, v) # r)))"

definition rsq :: "model \<Rightarrow> timestamp option \<Rightarrow> timestamp option \<Rightarrow> error + float" where
  "rsq ml tmin tmax =
     (let sim = simulate ml tmin tmax;
          obs = observations ml tmin tmax
      in case select_index sim (map fst obs) of
           Inl e \<Rightarrow> Inl e
         | Inr sim \<Rightarrow> Inr (np_corrcoef (map snd sim) (map snd obs)))"

text \<open>
  \<open>rsq_adj\<close>: \<open>N - 1.0\<close> is a Python float and \<open>N - self.ml.nparam\<close> a Python
  integer, so a zero there raises; so does the last division when both sums are the
  integer 0 of an empty series. Every other division is one of float64 scalars.
\<close>

definition rsq_adj :: "model \<Rightarrow> timestamp option \<Rightarrow> timestamp option \<Rightarrow> error + float" where
  "rsq_adj ml tmin tmax =
     (let obs = map snd (observations ml tmin tmax);
          res = map snd (residuals ml tmin tmax);
          N = int (length obs);
          RSS = py_sum (pow2 res);
          TSS = py_sum (pow2 (sub_scalar obs (pd_mean obs)))
      in if N - nparam ml = 0 then Inl ZeroDivisionError
         else if obs = [] \<and> res = [] then Inl ZeroDivisionError
         else Inr (fsub (Fin 1)
                (fdiv (fmul (Fin ((real_of_int N - 1) / real_of_int (N - nparam ml))) RSS)
                      TSS)))"

text \<open>\<open>len(self.ml.parameters[self.ml.parameters.vary == True])\<close>\<close>

definition free_parameters :: "model \<Rightarrow> nat" where
  "free_parameters ml = length (filter (\<lambda>(name, p). vary p = True) (parameters ml))"

definition bic :: "model \<Rightarrow> timestamp option \<Rightarrow> timestamp option \<Rightarrow> float" where
  "bic ml tmin tmax =
     (let innov = map snd (innovations ml tmin tmax);
          n = length innov;
          nparam = free_parameters ml
      in fadd (fmul (Fin (- 2)) (np_log (py_sum (pow2 innov))))
              (fmul (Fin (real nparam)) (np_log (Fin (real n)))))"

definition aic :: "model \<Rightarrow> timestamp option \<Rightarrow> timestamp option \<Rightarrow> float" where
  "aic ml tmin tmax =
     (let innov = map snd (innovations ml tmin tmax);
          nparam = free_parameters ml
      in fadd (fmul (Fin (- 2)) (np_log (py_sum (pow2 innov))))
              (Fin (2 * real nparam)))"

text \<open>
  The function \<open>durbin_watson\<close> of statsmodels: the sum of the squared successive
  differences over the sum of the squares.
\<close>

fun diff :: "real option list \<Rightarrow> real option list" where
  "diff (x # y # xs) =
     (case (x, y) of (Some a, Some b) \<Rightarrow> Some (b - a) | _ \<Rightarrow> None) # diff (y # xs)"
| "diff xs = []"

definition sm_durbin_watson :: "real option list \<Rightarrow> float" where
  "sm_durbin_watson resids = fdiv (py_sum (pow2 (diff resids))) (py_sum (pow2 resids))"

definition durbin_watson ::
  "model \<Rightarrow> timestamp option \<Rightarrow> timestamp option \<Rightarrow> string \<Rightarrow> error + float" where
  "durbin_watson ml tmin tmax series =
     (case bykey ml series tmin tmax of
        Inl e \<Rightarrow> Inl e
      | Inr series \<Rightarrow> Inr (sm_durbin_watson (map snd series)))"

section \<open>The Dutch statistics\<close>

definition q_ghg ::
  "model \<Rightarrow> timestamp option \<Rightarrow> timestamp option \<Rightarrow> string \<Rightarrow> real \<Rightarrow> error + float" where
  "q_ghg ml tmin tmax key q =
     (case bykey ml key tmin tmax of
        Inl e \<Rightarrow> Inl e
      | Inr series \<Rightarrow>
          let series = resample_d pd_median series
          in (case pd_quantile q (map snd series) of
                Inl e \<Rightarrow> Inl e
              | Inr r \<Rightarrow> Inr (to_float r)))"

definition q_glg ::
  "model \<Rightarrow> timestamp option \<Rightarrow> timestamp option \<Rightarrow> string \<Rightarrow> real \<Rightarrow> error + float" where
  "q_glg ml tmin tmax key q =
     (case bykey ml key tmin tmax of
        Inl e \<Rightarrow> Inl e
      | Inr series \<Rightarrow>
          let series = resample_d pd_median series
          in (case pd_quantile q (map snd series) of
                Inl e \<Rightarrow> Inl e
              | Inr r \<Rightarrow> Inr (to_float r)))"

text \<open>\<open>__inspring__\<close>: the boolean series of \<open>isinspring\<close> over the index.\<close>

definition isinspring :: "timestamp \<Rightarrow> bool" where
  "isinspring x =
     ((month_of x = 3 \<and> 14 \<le> day_of x) \<or> (month_of x = 4 \<and> day_of x < 15))"

definition inspring :: "series \<Rightarrow> bool list" where
  "inspring series = map (\<lambda>(x, v). isinspring x) series"

definition q_gvg ::
  "model \<Rightarrow> timestamp option \<Rightarrow> timestamp option \<Rightarrow> string \<Rightarrow> error + float" where
  "q_gvg ml tmin tmax key =
     (case bykey ml key tmin tmax of
        Inl e \<Rightarrow> Inl e
      | Inr series \<Rightarrow>
          let series = resample_d pd_median series;
              inspr = inspring series
          in if np_any inspr then Inr (to_float (pd_median (map snd (loc series inspr))))
             else Inr NaN)"

text \<open>The default quantiles of \<open>q_ghg\<close> and \<open>q_glg\<close>.\<close>

definition q_ghg_default :: real where
  "q_ghg_default = 94 / 100"

definition q_glg_default :: real where
  "q_glg_default = 6 / 100"

definition d_ghg :: "model \<Rightarrow> timestamp option \<Rightarrow> timestamp option \<Rightarrow> error + float" where
  "d_ghg ml tmin tmax =
     (case q_ghg ml tmin tmax ''simulated'' q_ghg_default of
        Inl e \<Rightarrow> Inl e
      | Inr a \<Rightarrow>
          (case q_ghg ml tmin tmax ''observations'' q_ghg_default of
             Inl e \<Rightarrow> Inl e
           | Inr b \<Rightarrow> Inr (fsub a b)))"

definition d_glg :: "model \<Rightarrow> timestamp option \<Rightarrow> timestamp option \<Rightarrow> error + float" where
  "d_glg ml tmin tmax =
     (case q_glg ml tmin tmax ''simulated'' q_glg_default of
        Inl e \<Rightarrow> Inl e
      | Inr a \<Rightarrow>
          (case q_glg ml tmin tmax ''observations'' q_glg_default of
             Inl e \<Rightarrow> Inl e
           | Inr b \<Rightarrow> Inr (fsub a b)))"

definition d_gvg :: "model \<Rightarrow> timestamp option \<Rightarrow> timestamp option \<Rightarrow> error + float" where
  "d_gvg ml tmin tmax =
     (case q_gvg ml tmin tmax ''simulated'' of
        Inl e \<Rightarrow> Inl e
      | Inr a \<Rightarrow>
          (case q_gvg ml tmin tmax ''observations'' of
             Inl e \<Rightarrow> Inl e
           | Inr b \<Rightarrow> Inr (fsub a b)))"

subsection \<open>The worker \<open>gxg\<close> and its three presets\<close>

text \<open>What \<open>gxg\<close> returns: a scalar, or the series of yearly values.\<close>

datatype gxg_result = Scalar float | Yearly yearly

definition the14or28 :: "timestamp \<Rightarrow> bool" where
  "the14or28 x = (day_of x = 14 \<or> day_of x = 28)"

text \<open>The fill step of \<open>gxg\<close>, after the daily resampling.\<close>

definition fill ::
  "interpolation \<Rightarrow> string option \<Rightarrow> int option \<Rightarrow> series \<Rightarrow> error + series" where
  "fill interpolate fill_method limit series =
     (case fill_method of
        None \<Rightarrow> Inr (dropna series)
      | Some m \<Rightarrow>
          if m = ''ffill'' then pd_ffill limit series
          else if m = ''bfill'' then pd_bfill limit series
          else interpolate m limit series)"

text \<open>
  The worker. \<open>interpolate\<close> stands for \<open>Series.interpolate\<close> and
  \<open>year_agg\<close> for the aggregator that the caller hands in: a function that returns
  a value, or NaN, for the part of the series in one year (the three presets hand in such
  functions; an aggregator that raises is outside the model).
\<close>

definition gxg ::
  "interpolation \<Rightarrow> (series \<Rightarrow> real option) \<Rightarrow> model \<Rightarrow> timestamp option \<Rightarrow>
   timestamp option \<Rightarrow> string \<Rightarrow> string option \<Rightarrow> int option \<Rightarrow> string \<Rightarrow>
   error + gxg_result" where
  "gxg interpolate year_agg ml tmin tmax key fill_method limit output =
     (case bykey ml key tmin tmax of
        Inl e \<Rightarrow> Inl e
      | Inr series \<Rightarrow>
          (case fill interpolate fill_method limit (resample_d pd_mean series) of
             Inl e \<Rightarrow> Inl e
           | Inr series \<Rightarrow>
               let is14or28 = map (\<lambda>(x, v). the14or28 x) series
               in if \<not> np_any is14or28 then Inr (Scalar NaN)
                  else
                    let series = loc series is14or28;
                        yearly = resample_a year_agg series
                    in if output = ''yearly'' then Inr (Yearly yearly)
                       else if output = ''mean''
                       then Inr (Scalar (to_float (pd_mean (map snd yearly))))
                       else Inl (ValueError (output @ '' is not a valid output option''))))"

text \<open>
  \<open>Series.nlargest(n)\<close> and \<open>Series.nsmallest(n)\<close>: the \<open>n\<close> largest (smallest)
  values present, the first of equal values first.
\<close>

definition value_of :: "timestamp \<times> real option \<Rightarrow> real" where
  "value_of e = (case snd e of Some r \<Rightarrow> r | None \<Rightarrow> 0)"

definition nlargest :: "nat \<Rightarrow> series \<Rightarrow> series" where
  "nlargest n s = take n (sort_key (\<lambda>e. - value_of e) (dropna s))"

definition nsmallest :: "nat \<Rightarrow> series \<Rightarrow> series" where
  "nsmallest n s = take n (sort_key value_of (dropna s))"

definition mean_high :: "series \<Rightarrow> real option" where
  "mean_high s = pd_mean (map snd (nlargest 3 s))"

definition mean_low :: "series \<Rightarrow> real option" where
  "mean_low s = pd_mean (map snd (nsmallest 3 s))"

definition mean_spring :: "series \<Rightarrow> real option" where
  "mean_spring series =
     (let inspr = inspring series
      in if np_any inspr then pd_mean (map snd (loc series inspr)) else None)"

definition ghg ::
  "interpolation \<Rightarrow> model \<Rightarrow> timestamp option \<Rightarrow> timestamp option \<Rightarrow> string \<Rightarrow>
   string option \<Rightarrow> int option \<Rightarrow> string \<Rightarrow> error + gxg_result" where
  "ghg interpolate ml tmin tmax key fill_method limit output =
     gxg interpolate mean_high ml tmin tmax key fill_method limit output"

definition glg ::
  "interpolation \<Rightarrow> model \<Rightarrow> timestamp option \<Rightarrow> timestamp option \<Rightarrow> string \<Rightarrow>
   string option \<Rightarrow> int option \<Rightarrow> string \<Rightarrow> error + gxg_result" where
  "glg interpolate ml tmin tmax key fill_method limit output =
     gxg interpolate mean_low ml tmin tmax key fill_method limit output"

definition gvg ::
  "interpolation \<Rightarrow> model \<Rightarrow> timestamp option \<Rightarrow> timestamp option \<Rightarrow> string \<Rightarrow>
   string option \<Rightarrow> int option \<Rightarrow> string \<Rightarrow> error + gxg_result" where
  "gvg interpolate ml tmin tmax key fill_method limit output =
     gxg interpolate mean_spring ml tmin tmax key fill_method limit output"

section \<open>Summary methods\<close>

text \<open>The table \<open>self.ops\<close> of \<open>__init__\<close>.\<close>

definition ops :: "(string \<times> string) list" where
  "ops = [(''evp'', ''Explained variance percentage''),
          (''rmse'', ''Root mean squared error''),
          (''rmsi'', ''Root mean squared innovation''),
          (''sse'', ''Sum of squares of the error''),
          (''avg_dev'', ''Average Deviation''),
          (''rsq'', ''Pearson R^2''),
          (''rsq_adj'', ''Adjusted Pearson R^2''),
          (''bic'', ''Bayesian Information Criterion''),
          (''aic'', ''Akaike Information Criterion'')]"

text \<open>
  \<open>getattr(self, k)(tmin=tmin, tmax=tmax)\<close> for the statistics that the tables of the
  class name (\<open>self.ops\<close>, the groups of \<open>summary\<close>, the default list of \<open>many\<close>);
  each is called with its default arguments. A name that the object does not have raises
  AttributeError. The other attributes of the object (\<open>acf\<close>, \<open>pacf\<close>, \<open>gxg\<close> and its
  presets, the helpers and the summary methods themselves) are in none of the tables and
  are not looked up here.
\<close>

definition statistic_names :: "string list" where
  "statistic_names =
     [''evp'', ''rmse'', ''rmsi'', ''sse'', ''avg_dev'', ''rsq'', ''rsq_adj'', ''bic'',
      ''aic'', ''durbin_watson'', ''q_ghg'', ''q_glg'', ''q_gvg'', ''d_ghg'', ''d_glg'',
      ''d_gvg'']"

definition call_method ::
  "model \<Rightarrow> string \<Rightarrow> timestamp option \<Rightarrow> timestamp option \<Rightarrow> error + float" where
  "call_method ml k tmin tmax =
     (if k = ''evp'' then Inr (evp ml tmin tmax)
      else if k = ''rmse'' then rmse ml tmin tmax
      else if k = ''rmsi'' then rmsi ml tmin tmax
      else if k = ''sse'' then Inr (sse ml tmin tmax)
      else if k = ''avg_dev'' then Inr (avg_dev ml tmin tmax)
      else if k = ''rsq'' then rsq ml tmin tmax
      else if k = ''rsq_adj'' then rsq_adj ml tmin tmax
      else if k = ''bic'' then Inr (bic ml tmin tmax)
      else if k = ''aic'' then Inr (aic ml tmin tmax)
      else if k = ''durbin_watson'' then durbin_watson ml tmin tmax ''innovations''
      else if k = ''q_ghg'' then q_ghg ml tmin tmax ''simulated'' q_ghg_default
      else if k = ''q_glg'' then q_glg ml tmin tmax ''simulated'' q_glg_default
      else if k = ''q_gvg'' then q_gvg ml tmin tmax ''simulated''
      else if k = ''d_ghg'' then d_ghg ml tmin tmax
      else if k = ''d_glg'' then d_glg ml tmin tmax
      else if k = ''d_gvg'' then d_gvg ml tmin tmax
      else Inl (AttributeError k))"

text \<open>
  \<open>summary\<close>: the dictionary \<open>output\<close>, the sorted list of (group, label, method
  name), and the table of labels and values. \<open>output[selected]\<close> raises KeyError for a
  string that is not a key.
\<close>

definition output_groups :: "(string \<times> (string \<times> string) list) list" where
  "output_groups =
     [(''basic'',
         [(''evp'', ''Explained variance percentage''),
          (''rmse'', ''Root mean squared error''),
          (''avg_dev'', ''Average Deviation''),
          (''rsq'', ''Pearson R^2''),
          (''bic'', ''Bayesian Information Criterion''),
          (''aic'', ''Akaike Information Criterion'')]),
      (''dutch'',
         [(''q_ghg'', ''Gemiddeld Hoge Grondwaterstand''),
          (''q_glg'', ''Gemiddeld Lage Grondwaterstand''),
          (''q_gvg'', ''Gemiddelde Voorjaarsgrondwaterstand''),
          (''d_ghg'', ''Verschil Gemiddeld Hoge Grondwaterstand''),
          (''d_glg'', ''Verschil Gemiddeld Lage Grondwaterstand''),
          (''d_gvg'', ''Verschil Gemiddelde Voorjaarsgrondwaterstand'')])]"

fun labels_and_values ::
  "model \<Rightarrow> timestamp option \<Rightarrow> timestamp option \<Rightarrow> (string \<times> string) list \<Rightarrow>
   error + (string \<times> float) list" where
  "labels_and_values ml tmin tmax [] = Inr []"
| "labels_and_values ml tmin tmax ((l, f) # rest) =
     (case call_method ml f tmin tmax of
        Inl e \<Rightarrow> Inl e
      | Inr v \<Rightarrow>
          (case labels_and_values ml tmin tmax rest of
             Inl e \<Rightarrow> Inl e
           | Inr r \<Rightarrow> Inr ((l, v) # r)))"

definition summary ::
  "model \<Rightarrow> string \<Rightarrow> timestamp option \<Rightarrow> timestamp option \<Rightarrow>
   error + (string \<times> float) list" where
  "summary ml selected tmin tmax =
     (case (if selected = ''all''
            then Inr (map (\<lambda>(k, l, f). (l, f))
                       (sort (concat (map (\<lambda>(k, d). map (\<lambda>(f, l). (k, l, f)) d)
                                          output_groups))))
            else (case map_of output_groups selected of
                    None \<Rightarrow> Inl (KeyError selected)
                  | Some d \<Rightarrow>
                      Inr (map (\<lambda>(z, l, f). (l, f))
                             (sort (map (\<lambda>(f, l). (0 :: nat, l, f)) d)))))
      of
        Inl e \<Rightarrow> Inl e
      | Inr selected_output \<Rightarrow> labels_and_values ml tmin tmax selected_output)"

text \<open>
  \<open>many\<close>: a table of one row, a column for every entry of \<open>stats\<close>, every cell
  missing at first; the loop stores each result under its column label
  (\<open>data.iloc[0][k] = ...\<close>, which writes to every column with that label).
\<close>

definition set_cell :: "(string \<times> float) list \<Rightarrow> string \<Rightarrow> float \<Rightarrow> (string \<times> float) list" where
  "set_cell data k v = map (\<lambda>(c, x). if c = k then (c, v) else (c, x)) data"

fun many_loop ::
  "model \<Rightarrow> timestamp option \<Rightarrow> timestamp option \<Rightarrow> (string \<times> float) list \<Rightarrow>
   string list \<Rightarrow> error + (string \<times> float) list" where
  "many_loop ml tmin tmax data [] = Inr data"
| "many_loop ml tmin tmax data (k # ks) =
     (case call_method ml k tmin tmax of
        Inl e \<Rightarrow> Inl e
      | Inr v \<Rightarrow> many_loop ml tmin tmax (set_cell data k v) ks)"

definition many ::
  "model \<Rightarrow> timestamp option \<Rightarrow> timestamp option \<Rightarrow> string list option \<Rightarrow>
   error + (string \<times> float) list" where
  "many ml tmin tmax stats =
     (let stats = (case stats of
                     None \<Rightarrow> [''evp'', ''rmse'', ''rmsi'', ''durbin_watson'']
                   | Some ks \<Rightarrow>
                       if ks = [] then [''evp'', ''rmse'', ''rmsi'', ''durbin_watson'']
                       else ks);
          data = map (\<lambda>k. (k, NaN)) stats
      in many_loop ml tmin tmax data stats)"

section \<open>Concrete inputs\<close>

definition t0 :: timestamp where
  "t0 = Timestamp 0 0"

definition ml_const :: model where
  "ml_const = \<lparr> observations = (\<lambda>tmin tmax. [(t0, Some 1)]),
                 simulate = (\<lambda>tmin tmax. [(t0, Some 2)]),
                 residuals = (\<lambda>tmin tmax. [(t0, Some 3)]),
                 innovations = (\<lambda>tmin tmax. [(t0, Some 4)]),
                 parameters = [],
                 nparam = 0 \<rparr>"

text \<open>A model whose series have one entry each, on 1 January 2000.\<close>

definition ml_jan :: model where
  "ml_jan = \<lparr> observations = (\<lambda>tmin tmax. [(date 2000 1 1, Some 1)]),
               simulate = (\<lambda>tmin tmax. [(date 2000 1 1, Some 2)]),
               residuals = (\<lambda>tmin tmax. [(date 2000 1 1, Some (- 1))]),
               innovations = (\<lambda>tmin tmax. [(date 2000 1 1, Some (- 1))]),
               parameters = [],
               nparam = 0 \<rparr>"

text \<open>A model observed on 14 March 2000 and simulated on 14 and 15 March 2000.\<close>

definition ml_mar :: model where
  "ml_mar = \<lparr> observations = (\<lambda>tmin tmax. [(date 2000 3 14, Some 0)]),
               simulate = (\<lambda>tmin tmax. [(date 2000 3 14, Some 1), (date 2000 3 15, Some 5)]),
               residuals = (\<lambda>tmin tmax. [(date 2000 3 14, Some (- 1))]),
               innovations = (\<lambda>tmin tmax. [(date 2000 3 14, Some (- 1))]),
               parameters = [],
               nparam = 0 \<rparr>"

text \<open>
  A model with three observations, a parameter that varies and one that is fixed, and
  an attribute \<open>nparam\<close> that counts both.
\<close>

definition ml_fix :: model where
  "ml_fix = \<lparr> observations = (\<lambda>tmin tmax.
                 [(date 2000 3 14, Some 0), (date 2000 3 15, Some 2), (date 2000 3 16, Some 4)]),
               simulate = (\<lambda>tmin tmax.
                 [(date 2000 3 14, Some (- 1)), (date 2000 3 15, Some 2),
                  (date 2000 3 16, Some 5)]),
               residuals = (\<lambda>tmin tmax.
                 [(date 2000 3 14, Some 1), (date 2000 3 15, Some 0),
                  (date 2000 3 16, Some (- 1))]),
               innovations = (\<lambda>tmin tmax.
                 [(date 2000 3 14, Some 1), (date 2000 3 15, Some 0),
                  (date 2000 3 16, Some (- 1))]),
               parameters = [(''A'', \<lparr>pvalue = 1, vary = True\<rparr>),
                             (''d'', \<lparr>pvalue = 0, vary = False\<rparr>)],
               nparam = 2 \<rparr>"

text \<open>
  A model simulated on the 14th and 28th of January and February 2000.
\<close>

definition ml_year :: model where
  "ml_year = \<lparr> observations = (\<lambda>tmin tmax. []),
                simulate = (\<lambda>tmin tmax.
                  [(date 2000 1 14, Some 1), (date 2000 1 28, Some 5),
                   (date 2000 2 14, Some 2), (date 2000 2 28, Some 7)]),
                residuals = (\<lambda>tmin tmax. []),
                innovations = (\<lambda>tmin tmax. []),
                parameters = [],
                nparam = 0 \<rparr>"

text \<open>
  A series observed around the spring of 2000: the day before the window, three times on
  14 March, on 15 March, twice on 17 March, on 20 March, on 14 April, and the day after
  the window. The medians of the days in the window are 4, 1, 7, 2 and 9.
\<close>

definition at_hour :: "timestamp \<Rightarrow> nat \<Rightarrow> timestamp" where
  "at_hour x h = Timestamp (dayno x) (tod x + h * 3600000000000)"

definition obs_spring :: series where
  "obs_spring =
     [(date 2000 3 13, Some 100),
      (date 2000 3 14, Some 3), (at_hour (date 2000 3 14) 6, Some 11),
      (at_hour (date 2000 3 14) 12, Some 4),
      (date 2000 3 15, Some 1),
      (date 2000 3 17, Some 9), (at_hour (date 2000 3 17) 12, Some 5),
      (date 2000 3 20, Some 2),
      (date 2000 4 14, Some 9),
      (date 2000 4 15, Some 200)]"

definition ml_spring :: model where
  "ml_spring = \<lparr> observations = (\<lambda>tmin tmax. obs_spring),
                  simulate = (\<lambda>tmin tmax. []),
                  residuals = (\<lambda>tmin tmax. []),
                  innovations = (\<lambda>tmin tmax. []),
                  parameters = [],
                  nparam = 0 \<rparr>"







section \<open>Statements of the specification\<close>

text \<open>
  The adjusted R-squared as the specification words it: \<open>1 - (N-1)/(N-Nparam) * RSS/TSS\<close>
  with \<open>Nparam\<close> the number of entries of the parameter table whose vary-flag is true.
\<close>

definition rsq_adj_free :: "model \<Rightarrow> timestamp option \<Rightarrow> timestamp option \<Rightarrow> real" where
  "rsq_adj_free ml tmin tmax =
     (let obs = valid (map snd (observations ml tmin tmax));
          res = valid (map snd (residuals ml tmin tmax));
          N = real (length obs);
          Nparam = real (free_parameters ml);
          RSS = sum_list (map (\<lambda>r. r\<^sup>2) res);
          TSS = sum_list (map (\<lambda>v. (v - sum_list obs / N)\<^sup>2) obs)
      in 1 - (N - 1) / (N - Nparam) * RSS / TSS)"

text \<open>
  The spring window of the specification, 14 March through 14 April inclusive, as a
  comparison of (month, day) pairs.
\<close>

definition spring_window :: "timestamp \<Rightarrow> bool" where
  "spring_window x \<longleftrightarrow>
     (3 :: int, 14 :: int) \<le> (month_of x, day_of x) \<and> (month_of x, day_of x) \<le> (4, 14)"

text \<open>
  The median of the specification: of the numbers in ascending order, the mean of the
  one just below the middle and the one just above it (the same number when their count
  is odd); nothing for no numbers.
\<close>

definition spec_median :: "real list \<Rightarrow> real option" where
  "spec_median vs =
     (if vs = [] then None
      else
        let zs = sort vs; n = length zs
        in Some ((zs ! ((n - 1) div 2) + zs ! (n div 2)) / 2))"

text \<open>
  The daily values of the specification in the spring window: for every calendar day of
  the window on which the series holds a value, in the order of the days, the median of
  the values that the series holds on that day.
\<close>

definition values_on :: "series \<Rightarrow> int \<Rightarrow> real list" where
  "values_on s d = [r. (t, Some r) \<leftarrow> s, dayno t = d]"

definition spring_daily_medians :: "series \<Rightarrow> real list" where
  "spring_daily_medians s =
     [m. d \<leftarrow> sorted_list_of_set (set (map (\<lambda>(t, v). dayno t) s)),
         spring_window (Timestamp d 0),
         Some m \<leftarrow> [spec_median (values_on s d)]]"

text \<open>
  What makes a number a median of a list, whatever the way it is computed: at least half
  of the values are at most the number, and at least half are at least the number.
\<close>

definition halves :: "real \<Rightarrow> real list \<Rightarrow> bool" where
  "halves m vs \<longleftrightarrow>
     length vs \<le> 2 * length (filter (\<lambda>v. v \<le> m) vs)
     \<and> length vs \<le> 2 * length (filter (\<lambda>v. m \<le> v) vs)"

text \<open>
  \<open>many\<close> as the specification words it: one column for every identifier, in the
  order given (the default list when none is given), each holding what the statistic
  returns when it is called on its own with the same window; the first call that raises
  ends it.
\<close>

fun collect_columns ::
  "(string \<Rightarrow> error + float) \<Rightarrow> string list \<Rightarrow> error + (string \<times> float) list" where
  "collect_columns call [] = Inr []"
| "collect_columns call (k # ks) =
     (case call k of
        Inl e \<Rightarrow> Inl e
      | Inr v \<Rightarrow>
          (case collect_columns call ks of
             Inl e \<Rightarrow> Inl e
           | Inr row \<Rightarrow> Inr ((k, v) # row)))"

definition default_stats :: "string list" where
  "default_stats = [''evp'', ''rmse'', ''rmsi'', ''durbin_watson'']"

definition many_spec ::
  "model \<Rightarrow> timestamp option \<Rightarrow> timestamp option \<Rightarrow> string list option \<Rightarrow>
   error + (string \<times> float) list" where
  "many_spec ml tmin tmax stats =
     collect_columns (\<lambda>k. call_method ml k tmin tmax)
       (case stats of None \<Rightarrow> default_stats | Some ks \<Rightarrow> if ks = [] then default_stats else ks)"

section \<open>Notions used in the proofs\<close>

text \<open>
  The entries of the daily-median series of \<open>q_gvg\<close> whose date lies in the spring
  window.
\<close>

definition daily_spring :: "series \<Rightarrow> series" where
  "daily_spring s = filter (\<lambda>(x, v). spring_window x) (resample_d pd_median s)"

text \<open>The value a cell holds once its column has been computed.\<close>

definition cell_value :: "error + float \<Rightarrow> float" where
  "cell_value r = (case r of Inl e \<Rightarrow> NaN | Inr v \<Rightarrow> v)"


section \<open>Rounding\<close>


lemma rhe_of_int [simp]: "rhe (of_int n) = n"
  by (simp add: rhe_def)

lemma rhe_numeral [simp]: "rhe (numeral n) = numeral n"
  using rhe_of_int [of "numeral n"] by simp



lemma round53_pos:
  assumes "0 < x"
  shows "round53 x = of_int (rhe (x / 2 powr (of_int \<lfloor>log 2 x\<rfloor> - 52))) * 2 powr (of_int \<lfloor>log 2 x\<rfloor> - 52)"
  using assms by (simp add: round53_def Let_def)

lemma round53_minus: "round53 (- x) = - round53 x"
  by (simp add: round53_def Let_def sgn_minus)








lemma round53_of_int:
  assumes "\<bar>m\<bar> < 2 ^ 53"
  shows "round53 (of_int m) = of_int m"
proof -
  have pos: "round53 (of_int k) = of_int k" if k: "0 < k" "k < 2 ^ 53" for k :: int
  proof -
    let ?x = "of_int k :: real"
    let ?e = "\<lfloor>log 2 ?x\<rfloor>"
    from k have x: "0 < ?x" "1 \<le> ?x" by simp_all
    from k(2) have "?x < 2 ^ 53"
      by (metis of_int_less_iff of_int_numeral of_int_power)
    then have "?x < 2 powr of_int 53" by simp
    with x have "log 2 ?x < of_int 53"
      by (simp add: log_less_iff del: of_int_numeral)
    then have hi: "?e \<le> 52" by linarith
    define j where "j = nat (52 - ?e)"
    with hi have e: "(of_int ?e :: real) - 52 = - real j" by simp
    have u: "(2 :: real) powr (of_int ?e - 52) = 1 / 2 ^ j"
      unfolding e by (simp add: powr_minus_divide powr_realpow)
    have q: "?x / (1 / 2 ^ j) = of_int (k * 2 ^ j)"
      by simp
    show ?thesis
      unfolding round53_pos [OF x(1)] u q rhe_of_int by simp
  qed
  consider "0 < m" | "m = 0" | "m < 0" by linarith
  then show ?thesis
  proof cases
    case 1
    with assms show ?thesis by (intro pos) simp_all
  next
    case 2
    then show ?thesis by (simp add: round53_def)
  next
    case 3
    with assms have "round53 (of_int (- m)) = of_int (- m)" by (intro pos) simp_all
    then show ?thesis by (simp add: round53_minus)
  qed
qed

lemma round53_0 [simp]: "round53 0 = 0"
  by (simp add: round53_def)

lemma round53_1 [simp]: "round53 1 = 1"
  using round53_of_int [of 1] by simp

lemma round53_numeral [simp]: "numeral n < (2 :: int) ^ 53 \<Longrightarrow> round53 (numeral n) = numeral n"
  using round53_of_int [of "numeral n"] by simp

lemma round53_neg_numeral [simp]:
  "numeral n < (2 :: int) ^ 53 \<Longrightarrow> round53 (- numeral n) = - numeral n"
  by (simp add: round53_minus)













section \<open>Evaluation\<close>

lemma date_2000_01_01: "date 2000 1 1 = Timestamp 10957 0"
  by (simp add: date_def days_from_civil_def)

lemma date_2000_03_14: "date 2000 3 14 = Timestamp 11030 0"
  by (simp add: date_def days_from_civil_def)

lemma date_2000_03_15: "date 2000 3 15 = Timestamp 11031 0"
  by (simp add: date_def days_from_civil_def)

lemma civil_10957: "civil_from_days 10957 = (2000, 1, 1)"
  by code_simp

lemma civil_11030: "civil_from_days 11030 = (2000, 3, 14)"
  by code_simp

lemma civil_11031: "civil_from_days 11031 = (2000, 3, 15)"
  by code_simp

section \<open>Masks\<close>

lemma sort_eq_Nil [simp]: "sort_key f xs = [] \<longleftrightarrow> xs = []"
  by (metis length_sort length_0_conv)

lemma loc_map: "loc s (map f s) = filter f s"
  by (induction s) (auto simp: loc_def)

lemma np_any_map: "np_any (map f s) \<longleftrightarrow> (\<exists>e \<in> set s. f e)"
  by (auto simp: np_any_def)

section \<open>The steps of \<open>gxg\<close>\<close>

lemma gxg_cases:
  "gxg interpolate year_agg ml tmin tmax key fill_method limit output =
     (case bykey ml key tmin tmax of
        Inl e \<Rightarrow> Inl e
      | Inr s \<Rightarrow>
          (case fill interpolate fill_method limit (resample_d pd_mean s) of
             Inl e \<Rightarrow> Inl e
           | Inr filled \<Rightarrow>
               if \<forall>(x, v) \<in> set filled. \<not> the14or28 x then Inr (Scalar NaN)
               else if output = ''yearly''
               then Inr (Yearly (resample_a year_agg (filter (\<lambda>(x, v). the14or28 x) filled)))
               else if output = ''mean''
               then Inr (Scalar (to_float (pd_mean (map snd
                      (resample_a year_agg (filter (\<lambda>(x, v). the14or28 x) filled))))))
               else Inl (ValueError (output @ '' is not a valid output option''))))"
  by (auto simp: gxg_def loc_map np_any_map Let_def split: sum.splits)

lemma q_gvg_cases:
  "q_gvg ml tmin tmax key =
     (case bykey ml key tmin tmax of
        Inl e \<Rightarrow> Inl e
      | Inr s \<Rightarrow>
          if \<exists>e \<in> set (resample_d pd_median s). (\<lambda>(x, v). isinspring x) e
          then Inr (to_float (pd_median (map snd
                 (filter (\<lambda>(x, v). isinspring x) (resample_d pd_median s)))))
          else Inr NaN)"
  by (simp add: q_gvg_def Let_def inspring_def loc_map np_any_map split: sum.splits)

lemma mean_spring_cases:
  "mean_spring s =
     (if \<exists>e \<in> set s. (\<lambda>(x, v). isinspring x) e
      then pd_mean (map snd (filter (\<lambda>(x, v). isinspring x) s)) else None)"
  by (simp add: mean_spring_def Let_def inspring_def loc_map np_any_map)

lemma resample_jan:
  "resample_d agg [(date 2000 1 1, Some r)] = [(Timestamp 10957 0, agg [Some r])]"
  by (simp add: resample_d_def date_2000_01_01)

lemma resample_mar_1:
  "resample_d agg [(date 2000 3 14, Some r)] = [(Timestamp 11030 0, agg [Some r])]"
  by (simp add: resample_d_def date_2000_03_14)

lemma resample_mar_2:
  "resample_d agg [(date 2000 3 14, Some a), (date 2000 3 15, Some b)] =
     [(Timestamp 11030 0, agg [Some a]), (Timestamp 11031 0, agg [Some b])]"
  by (simp add: resample_d_def date_2000_03_14 date_2000_03_15 upto_rec1)

lemma pd_mean_single: "round53 r = r \<Longrightarrow> pd_mean [Some r] = Some r"
  by (simp add: pd_mean_def sum64_def)

lemma pd_median_single: "pd_median [Some r] = Some r"
  by (simp add: pd_median_def)

lemma resample_a_single:
  "resample_a agg [(Timestamp 11030 0, v)] = [(2000, agg [(Timestamp 11030 0, v)])]"
  by (simp add: resample_a_def year_of_def civil_11030)

text \<open>
  Once a time stamp on a 14th or 28th is left after the fill step, an \<open>output\<close>
  other than "yearly" and "mean" raises the ValueError that names it (\<open>year_agg\<close>
  has been applied by then, and has returned).
\<close>

lemma gxg_unknown_output_raises:
  assumes "bykey ml key tmin tmax = Inr s"
    and "fill interpolate fill_method limit (resample_d pd_mean s) = Inr filled"
    and "\<exists>(x, v) \<in> set filled. the14or28 x"
    and "output \<noteq> ''yearly''" and "output \<noteq> ''mean''"
  shows "gxg interpolate year_agg ml tmin tmax key fill_method limit output =
           Inl (ValueError (output @ '' is not a valid output option''))"
  using assms by (auto simp: gxg_cases)

lemma gxg_unknown_output_raises_mar:
  "gxg interpolate_linear mean_high ml_mar None None ''simulated'' (Some ''linear'') (Some 15)
     ''bogus'' = Inl (ValueError ''bogus is not a valid output option'')"
proof -
  have h1: "bykey ml_mar ''simulated'' None None =
              Inr [(date 2000 3 14, Some 1), (date 2000 3 15, Some 5)]"
    by (simp add: bykey_def ml_mar_def)
  have h2: "fill interpolate_linear (Some ''linear'') (Some 15)
              (resample_d pd_mean [(date 2000 3 14, Some 1), (date 2000 3 15, Some 5)]) =
              Inr [(Timestamp 11030 0, Some 1), (Timestamp 11031 0, Some 5)]"
    by (simp add: resample_mar_2 pd_mean_single fill_def interpolate_linear_def)
  have h3: "\<exists>(x, v) \<in> set [(Timestamp 11030 0, Some (1::real)), (Timestamp 11031 0, Some 5)].
              the14or28 x"
    by (simp add: the14or28_def day_of_def civil_11030)
  have h4: "''bogus'' \<noteq> ''yearly''" and h5: "''bogus'' \<noteq> ''mean''"
    by simp_all
  show ?thesis
    using gxg_unknown_output_raises [OF h1 h2 h3 h4 h5, of mean_high] by simp
qed

lemma isinspring_window: "isinspring x \<longleftrightarrow> spring_window x"
  by (auto simp: isinspring_def spring_window_def less_eq_prod_def)

section \<open>Variance\<close>

lemma sum_squares_nonneg: "0 \<le> sum_list (map (\<lambda>v. (v - m)\<^sup>2) (vs :: real list))"
  by (rule sum_list_nonneg) auto

lemma np_var_nonneg: "np_var xs = Some v \<Longrightarrow> 0 \<le> v"
  by (auto simp: np_var_def Let_def sum_squares_nonneg split: if_splits)

lemma np_var_obs_fix: "np_var (map snd (observations ml_fix None None)) = Some (8 / 3)"
  by (simp add: np_var_def ml_fix_def power2_eq_square)

lemma np_var_res_fix: "np_var (map snd (residuals ml_fix None None)) = Some (2 / 3)"
  by (simp add: np_var_def ml_fix_def power2_eq_square)

lemma evp_fix: "evp ml_fix None None = Fin 75"
  using np_var_obs_fix np_var_res_fix by (simp add: evp_def Let_def py_max_def fsub_def)

lemma rmse_fix: "rmse ml_fix None None = Inr (Fin (sqrt (2 / 3)))"
  by (simp add: rmse_def ml_fix_def py_sum_def pow2_def)

section \<open>Sums over values that are present\<close>

lemma valid_map_Some [simp]: "valid (map Some zs) = zs"
  by (induction zs) auto

lemma foldl_fadd_Fin:
  "foldl fadd (Fin a) (map (\<lambda>x. Fin (f x)) xs) = Fin (a + sum_list (map f xs))"
  by (induction xs arbitrary: a) (simp_all add: add.assoc)

lemma py_sum_present: "py_sum (map (\<lambda>x. Some (f x)) xs) = Fin (sum_list (map f xs))"
  using foldl_fadd_Fin [of 0 f xs] by (simp add: py_sum_def comp_def)

lemma pow2_present: "pow2 (map (\<lambda>x. Some (f x)) xs) = map (\<lambda>x. Some ((f x)\<^sup>2)) xs"
  by (simp add: pow2_def)

lemma sub_scalar_present:
  "sub_scalar (map Some xs) (Some m) = map (\<lambda>x. Some (x - m)) xs"
  by (simp add: sub_scalar_def)

lemma pd_mean_present:
  "xs \<noteq> [] \<Longrightarrow> pd_mean (map Some xs) = Some (round53 (sum64 xs / real (length xs)))"
  by (simp add: pd_mean_def)

text \<open>
  What \<open>rsq_adj\<close> computes when all values are present, the observations vary and
  their number differs from \<open>nparam\<close>: the parameter count in the formula is the
  attribute \<open>nparam\<close> of the model. \<open>m\<close> is the mean of the observations.
\<close>

lemma rsq_adj_present:
  assumes "map snd (observations ml tmin tmax) = map Some obs"
    and "map snd (residuals ml tmin tmax) = map Some res"
    and "obs \<noteq> []"
    and "int (length obs) \<noteq> nparam ml"
    and "pd_mean (map Some obs) = Some m"
    and "sum_list (map (\<lambda>v. (v - m)\<^sup>2) obs) \<noteq> 0"
  shows "rsq_adj ml tmin tmax =
     Inr (Fin (1 - (real (length obs) - 1) / (real (length obs) - real_of_int (nparam ml))
                   * sum_list (map (\<lambda>r. r\<^sup>2) res)
                   / sum_list (map (\<lambda>v. (v - m)\<^sup>2) obs)))"
proof -
  have len: "length (map snd (observations ml tmin tmax)) = length obs"
    by (simp add: assms(1))
  show ?thesis
    using assms(3,4,6) len
    by (simp add: rsq_adj_def Let_def assms(1,2,5) sub_scalar_present
        pow2_present [of "\<lambda>x. x", simplified] pow2_present py_sum_present fsub_def)
qed

lemma summary_basic_year: "summary ml_year ''basic'' None None = Inl ZeroDivisionError"
  by (simp add: summary_def output_groups_def call_method_def rmse_def ml_year_def rsq_def
      np_corrcoef_def)

section \<open>The spring window\<close>

lemma spring_window_dayno: "spring_window (Timestamp (dayno x) n) = spring_window x"
  by (simp add: spring_window_def month_of_def day_of_def)

lemma valid_single_day:
  "distinct ds \<Longrightarrow> d0 \<in> set ds \<Longrightarrow>
     valid (map (\<lambda>d. if d = d0 then v else None) ds) = valid [v]"
proof (induction ds)
  case Nil
  then show ?case by simp
next
  case (Cons d ds)
  have rest: "valid (map (\<lambda>d. if d = d0 then v else None) ds) = []" if "d0 \<notin> set ds"
    using that by (induction ds) auto
  from Cons show ?case
    by (cases "d = d0"; cases v) (auto simp: rest)
qed

lemma valid_all_None: "valid (map (\<lambda>d. None) ds) = []"
  by (induction ds) auto

lemma pd_median_valid: "valid xs = valid ys \<Longrightarrow> pd_median xs = pd_median ys"
  by (simp add: pd_median_def)

lemma pd_median_Nil: "pd_median [] = None"
  by (simp add: pd_median_def)

lemma pd_median_one: "pd_median [v] = v"
  by (cases v) (simp_all add: pd_median_def)

lemma daily_spring_values:
  assumes "s \<noteq> []"
  shows "map snd (daily_spring s) =
     map (\<lambda>d. pd_median (map snd (filter (\<lambda>(t, v). dayno t = d)
                                     (filter (\<lambda>(x, v). spring_window x) s))))
       (filter (\<lambda>d. spring_window (Timestamp d 0))
          [Min (set (map (\<lambda>(t, v). dayno t) s)) .. Max (set (map (\<lambda>(t, v). dayno t) s))])"
proof -
  let ?W = "\<lambda>(x, v). spring_window x"
  have day: "filter (\<lambda>(t, v). dayno t = d) s = filter (\<lambda>(t, v). dayno t = d) (filter ?W s)"
    if "spring_window (Timestamp d 0)" for d
    unfolding filter_filter
  proof (rule filter_cong [OF refl])
    fix e assume "e \<in> set s"
    obtain x w where e: "e = (x, w)" by (cases e)
    show "(case e of (t, v) \<Rightarrow> dayno t = d) = (?W e \<and> (case e of (t, v) \<Rightarrow> dayno t = d))"
      using that spring_window_dayno [of x 0] by (auto simp: e)
  qed
  have "map snd (daily_spring s) =
      map (\<lambda>d. pd_median (map snd (filter (\<lambda>(t, v). dayno t = d) s)))
        (filter (\<lambda>d. spring_window (Timestamp d 0))
          [Min (set (map (\<lambda>(t, v). dayno t) s)) .. Max (set (map (\<lambda>(t, v). dayno t) s))])"
    using assms by (simp add: daily_spring_def resample_d_def Let_def filter_map comp_def)
  also have "\<dots> =
      map (\<lambda>d. pd_median (map snd (filter (\<lambda>(t, v). dayno t = d) (filter ?W s))))
        (filter (\<lambda>d. spring_window (Timestamp d 0))
          [Min (set (map (\<lambda>(t, v). dayno t) s)) .. Max (set (map (\<lambda>(t, v). dayno t) s))])"
    by (rule map_cong [OF refl]) (simp add: day)
  finally show ?thesis .
qed

lemma daily_spring_none:
  assumes "filter (\<lambda>(x, v). spring_window x) s = []"
  shows "valid (map snd (daily_spring s)) = []"
proof (cases "s = []")
  case True
  then show ?thesis by (simp add: daily_spring_def resample_d_def)
next
  case False
  then show ?thesis
    by (simp add: daily_spring_values assms pd_median_Nil valid_all_None)
qed

lemma daily_spring_single:
  assumes "filter (\<lambda>(x, v). spring_window x) s = [(t, v)]"
  shows "pd_median (map snd (daily_spring s)) = v"
proof -
  let ?ds = "map (\<lambda>(t, v). dayno t) s"
  from assms have "(t, v) \<in> set (filter (\<lambda>(x, v). spring_window x) s)" by simp
  then have ts: "(t, v) \<in> set s" and wt: "spring_window t" by auto
  then have ne: "s \<noteq> []" by auto
  from ts have "dayno t \<in> set ?ds" by force
  then have "Min (set ?ds) \<le> dayno t" and "dayno t \<le> Max (set ?ds)" by simp_all
  then have ingrid: "dayno t \<in> set [Min (set ?ds) .. Max (set ?ds)]" by simp
  have "map snd (daily_spring s) =
      map (\<lambda>d. if d = dayno t then v else None)
        (filter (\<lambda>d. spring_window (Timestamp d 0)) [Min (set ?ds) .. Max (set ?ds)])"
    unfolding daily_spring_values [OF ne] assms
    by (rule map_cong [OF refl]) (simp add: pd_median_one pd_median_Nil)
  then have "valid (map snd (daily_spring s)) = valid [v]"
    using ingrid wt spring_window_dayno [of t 0]
    by (simp add: valid_single_day)
  then have "pd_median (map snd (daily_spring s)) = pd_median [v]"
    by (rule pd_median_valid)
  then show ?thesis by (simp add: pd_median_one)
qed

text \<open>
  The median of \<open>q_gvg\<close> is the median of the specification, and its daily medians
  in the window are those of the specification: the days of the grid on which the series
  has no value hold none.
\<close>

lemma pd_median_spec: "pd_median xs = spec_median (valid xs)"
proof (cases "valid xs = []")
  case True
  then show ?thesis by (simp add: pd_median_def spec_median_def)
next
  case False
  let ?n = "length (valid xs)"
  from False have n: "0 < ?n" by simp
  show ?thesis
  proof (cases "odd ?n")
    case True
    then have "(?n - 1) div 2 = ?n div 2" by (auto elim!: oddE)
    with True False show ?thesis
      by (simp add: pd_median_def spec_median_def Let_def)
  next
    case False
    with n have "(?n - 1) div 2 = ?n div 2 - 1" by (auto elim!: evenE)
    with False n show ?thesis
      by (simp add: pd_median_def spec_median_def Let_def)
  qed
qed

lemma values_on_filter:
  "valid (map snd (filter (\<lambda>(t, v). dayno t = d) s)) = values_on s d"
proof (induction s)
  case Nil
  then show ?case by (simp add: values_on_def)
next
  case (Cons e s)
  obtain t v where e: "e = (t, v)" by (cases e)
  from Cons show ?case
    by (cases v) (auto simp: values_on_def e)
qed

lemma values_on_absent:
  "d \<notin> set (map (\<lambda>(t, v). dayno t) s) \<Longrightarrow> values_on s d = []"
proof -
  assume "d \<notin> set (map (\<lambda>(t, v). dayno t) s)"
  then have "filter (\<lambda>(t, v). dayno t = d) s = []"
    by (auto simp: filter_empty_conv image_iff)
  then show ?thesis
    unfolding values_on_filter [symmetric] by simp
qed

lemma medians_of_days:
  "[m. d \<leftarrow> ds, W d, Some m \<leftarrow> [g d]] = valid (map g (filter W ds))"
proof (induction ds)
  case Nil
  then show ?case by simp
next
  case (Cons d ds)
  then show ?case by (cases "g d") auto
qed

lemma valid_skip_absent:
  assumes "\<And>x. \<not> P x \<Longrightarrow> g x = None"
  shows "valid (map g (filter W (filter P xs))) = valid (map g (filter W xs))"
proof (induction xs)
  case Nil
  then show ?case by simp
next
  case (Cons x xs)
  then show ?case
    using assms [of x] by (cases "g x") auto
qed

lemma sorted_list_of_days:
  fixes D :: "int set"
  assumes "finite D" and "D \<noteq> {}"
  shows "sorted_list_of_set D = filter (\<lambda>d. d \<in> D) [Min D .. Max D]"
proof (rule sorted_distinct_set_unique)
  show "sorted (sorted_list_of_set D)" and "distinct (sorted_list_of_set D)"
    by simp_all
  show "sorted (filter (\<lambda>d. d \<in> D) [Min D .. Max D])"
    by (rule sorted_filter [where f = "\<lambda>x. x", simplified]) simp
  show "distinct (filter (\<lambda>d. d \<in> D) [Min D .. Max D])"
    by simp
  show "set (sorted_list_of_set D) = set (filter (\<lambda>d. d \<in> D) [Min D .. Max D])"
    using assms by auto
qed

lemma spring_medians_daily: "valid (map snd (daily_spring s)) = spring_daily_medians s"
proof (cases "s = []")
  case True
  then show ?thesis
    by (simp add: daily_spring_def resample_d_def spring_daily_medians_def)
next
  case False
  let ?D = "set (map (\<lambda>(t, v). dayno t) s)"
  let ?W = "\<lambda>d. spring_window (Timestamp d 0)"
  let ?g = "\<lambda>d. spec_median (values_on s d)"
  from False have D: "finite ?D" "?D \<noteq> {}" by simp_all
  have absent: "?g d = None" if "\<not> d \<in> ?D" for d
    using that values_on_absent [of d s] by (simp add: spec_median_def)
  have "map snd (daily_spring s) = map ?g (filter ?W [Min ?D .. Max ?D])"
    using False
    by (simp add: daily_spring_def resample_d_def Let_def filter_map comp_def
        pd_median_spec values_on_filter)
  then have "valid (map snd (daily_spring s)) = valid (map ?g (filter ?W [Min ?D .. Max ?D]))"
    by simp
  also have "\<dots> = valid (map ?g (filter ?W (filter (\<lambda>d. d \<in> ?D) [Min ?D .. Max ?D])))"
    by (rule valid_skip_absent [symmetric]) (rule absent)
  also have "\<dots> = valid (map ?g (filter ?W (sorted_list_of_set ?D)))"
    by (simp only: sorted_list_of_days [OF D])
  also have "\<dots> = spring_daily_medians s"
    unfolding spring_daily_medians_def by (rule medians_of_days [symmetric])
  finally show ?thesis .
qed

lemma length_filter_sort: "length (filter P (sort xs)) = length (filter P xs)"
proof -
  have "mset (filter P (sort xs)) = mset (filter P xs)"
    by simp
  then show ?thesis
    by (rule mset_eq_length)
qed

lemma count_below:
  fixes zs :: "real list"
  assumes "sorted zs" and "k < length zs" and "zs ! k \<le> m"
  shows "Suc k \<le> length (filter (\<lambda>v. v \<le> m) zs)"
proof -
  have "\<forall>v \<in> set (take (Suc k) zs). v \<le> m"
  proof
    fix v assume "v \<in> set (take (Suc k) zs)"
    then obtain i where i: "i < Suc k" "i < length zs" "v = zs ! i"
      by (auto simp: in_set_conv_nth)
    with assms(1,2) have "zs ! i \<le> zs ! k"
      by (intro sorted_nth_mono) simp_all
    with i assms(3) show "v \<le> m" by simp
  qed
  then have "filter (\<lambda>v. v \<le> m) (take (Suc k) zs) = take (Suc k) zs"
    by (simp add: filter_id_conv)
  then have "length (filter (\<lambda>v. v \<le> m) (take (Suc k) zs)) = Suc k"
    using assms(2) by simp
  moreover have "length (filter (\<lambda>v. v \<le> m) zs) =
      length (filter (\<lambda>v. v \<le> m) (take (Suc k) zs))
      + length (filter (\<lambda>v. v \<le> m) (drop (Suc k) zs))"
    by (metis append_take_drop_id filter_append length_append)
  ultimately show ?thesis by simp
qed

lemma count_above:
  fixes zs :: "real list"
  assumes "sorted zs" and "k < length zs" and "m \<le> zs ! k"
  shows "length zs - k \<le> length (filter (\<lambda>v. m \<le> v) zs)"
proof -
  have "\<forall>v \<in> set (drop k zs). m \<le> v"
  proof
    fix v assume "v \<in> set (drop k zs)"
    then obtain i where i: "i < length zs - k" "v = zs ! (k + i)"
      by (auto simp: in_set_conv_nth)
    with assms(1,2) have "zs ! k \<le> zs ! (k + i)"
      by (intro sorted_nth_mono) simp_all
    with i assms(3) show "m \<le> v" by simp
  qed
  then have "filter (\<lambda>v. m \<le> v) (drop k zs) = drop k zs"
    by (simp add: filter_id_conv)
  then have "length (filter (\<lambda>v. m \<le> v) (drop k zs)) = length zs - k"
    by simp
  moreover have "length (filter (\<lambda>v. m \<le> v) zs) =
      length (filter (\<lambda>v. m \<le> v) (take k zs))
      + length (filter (\<lambda>v. m \<le> v) (drop k zs))"
    by (metis append_take_drop_id filter_append length_append)
  ultimately show ?thesis by simp
qed

lemma spec_median_halves:
  assumes "spec_median vs = Some m"
  shows "halves m vs"
proof -
  let ?zs = "sort vs"
  let ?n = "length vs"
  from assms have ne: "vs \<noteq> []"
    by (auto simp: spec_median_def)
  then have n: "0 < ?n" by simp
  let ?lo = "?zs ! ((?n - 1) div 2)" and ?hi = "?zs ! (?n div 2)"
  from assms ne have m: "m = (?lo + ?hi) / 2"
    by (simp add: spec_median_def Let_def)
  have "?lo \<le> ?hi"
    using n by (intro sorted_nth_mono) simp_all
  with m have lo: "?lo \<le> m" and hi: "m \<le> ?hi" by simp_all
  have "(?n - 1) div 2 < ?n"
  proof -
    have "(?n - 1) div 2 \<le> ?n - 1" by (rule div_le_dividend)
    also from n have "?n - 1 < ?n" by simp
    finally show ?thesis .
  qed
  then have "(?n - 1) div 2 < length ?zs" by simp
  then have "Suc ((?n - 1) div 2) \<le> length (filter (\<lambda>v. v \<le> m) ?zs)"
    using lo by (intro count_below) simp_all
  then have below: "?n \<le> 2 * length (filter (\<lambda>v. v \<le> m) vs)"
    unfolding length_filter_sort by linarith
  have "length ?zs - ?n div 2 \<le> length (filter (\<lambda>v. m \<le> v) ?zs)"
    using n hi by (intro count_above) simp_all
  then have above: "?n \<le> 2 * length (filter (\<lambda>v. m \<le> v) vs)"
    unfolding length_filter_sort by simp
  from below above show ?thesis
    by (simp add: halves_def)
qed

text \<open>The spring of 2000 in day numbers, and the medians of \<open>obs_spring\<close>.\<close>

lemma dates_spring:
  "date 2000 3 13 = Timestamp 11029 0" "date 2000 3 14 = Timestamp 11030 0"
  "date 2000 3 15 = Timestamp 11031 0" "date 2000 3 17 = Timestamp 11033 0"
  "date 2000 3 20 = Timestamp 11036 0" "date 2000 4 14 = Timestamp 11061 0"
  "date 2000 4 15 = Timestamp 11062 0"
  by (simp_all add: date_def days_from_civil_def)

lemma window_2000:
  "\<forall>d \<in> set [11029 .. 11062]. spring_window (Timestamp d 0) = (11030 \<le> d \<and> d \<le> 11061)"
  by code_simp

lemma days_spring:
  "sorted_list_of_set (set (map (\<lambda>(t, v). dayno t) obs_spring)) =
     [11029, 11030, 11031, 11033, 11036, 11061, 11062]"
  by (simp add: obs_spring_def dates_spring at_hour_def sorted_list_of_set_sort_remdups)

lemma window_days:
  "filter (\<lambda>d. spring_window (Timestamp d 0)) [11029, 11030, 11031, 11033, 11036, 11061, 11062]
     = [11030, 11031, 11033, 11036, 11061]"
  using window_2000 by simp

lemma values_spring:
  "values_on obs_spring 11030 = [3, 11, 4]"
  "values_on obs_spring 11031 = [1]"
  "values_on obs_spring 11033 = [9, 5]"
  "values_on obs_spring 11036 = [2]"
  "values_on obs_spring 11061 = [9]"
  by (simp_all add: values_on_def obs_spring_def dates_spring at_hour_def)

lemma medians_spring: "spring_daily_medians obs_spring = [4, 1, 7, 2, 9]"
  unfolding spring_daily_medians_def medians_of_days days_spring window_days
  by (simp add: values_spring spec_median_def)

section \<open>The loop of \<open>many\<close>\<close>

lemma set_cell_then_fill:
  "map (\<lambda>(c, x). if c \<in> set ks then (c, g c) else (c, x)) (set_cell data k (g k)) =
   map (\<lambda>(c, x). if c \<in> set (k # ks) then (c, g c) else (c, x)) data"
  by (auto simp: set_cell_def)

lemma many_loop_collect:
  "many_loop ml tmin tmax data ks =
     (case collect_columns (\<lambda>k. call_method ml k tmin tmax) ks of
        Inl e \<Rightarrow> Inl e
      | Inr row \<Rightarrow>
          Inr (map (\<lambda>(c, x). if c \<in> set ks
                     then (c, cell_value (call_method ml c tmin tmax)) else (c, x)) data))"
proof (induction ks arbitrary: data)
  case Nil
  then show ?case by simp
next
  case (Cons k ks)
  show ?case
  proof (cases "call_method ml k tmin tmax")
    case (Inl e)
    then show ?thesis by simp
  next
    case (Inr v)
    then have g: "cell_value (call_method ml k tmin tmax) = v"
      by (simp add: cell_value_def)
    have step:
      "map (\<lambda>(c, x). if c \<in> set ks
              then (c, cell_value (call_method ml c tmin tmax)) else (c, x))
         (set_cell data k v) =
       map (\<lambda>(c, x). if c \<in> set (k # ks)
              then (c, cell_value (call_method ml c tmin tmax)) else (c, x)) data"
      using set_cell_then_fill
        [of ks "\<lambda>c. cell_value (call_method ml c tmin tmax)" data k]
      by (simp only: g)
    show ?thesis
      by (simp only: many_loop.simps collect_columns.simps Inr sum.case Cons.IH step
          split: sum.splits) simp
  qed
qed

lemma collect_columns_row:
  "collect_columns call ks = Inr row \<Longrightarrow> row = map (\<lambda>k. (k, cell_value (call k))) ks"
  by (induction ks arbitrary: row) (auto simp: cell_value_def split: sum.splits)

lemma collect_columns_total:
  "\<forall>k \<in> set ks. \<exists>v. call k = Inr v \<Longrightarrow> \<exists>row. collect_columns call ks = Inr row"
  by (induction ks) auto

lemma collect_columns_calls:
  "collect_columns call ks = Inr row \<Longrightarrow> i < length ks \<Longrightarrow> call (ks ! i) = Inr (snd (row ! i))"
proof (induction ks arbitrary: row i)
  case Nil
  then show ?case by simp
next
  case (Cons k ks)
  then show ?case
    by (cases i) (auto split: sum.splits)
qed

section \<open>The three largest and the three smallest values\<close>




























section \<open>The two orders of adding 0.3, 0.2 and 0.1\<close>








section \<open>Claims\<close>

text \<open>
  C1. The claim holds of \<open>bic\<close> and \<open>aic\<close>, which count the rows of the parameter
  table with \<open>vary == True\<close>, and fails of \<open>rsq_adj\<close>, which reads the attribute
  \<open>self.ml.nparam\<close> instead. On \<open>ml_fix\<close> (three observations, one free and one
  fixed parameter, \<open>nparam = 2\<close>) \<open>rsq_adj\<close> returns 1/2, where the formula with the
  number of free parameters gives 3/4.
\<close>

theorem rsq_adj_reads_nparam_attribute:
  "rsq_adj ml_fix None None = Inr (Fin (1 / 2))
   \<and> nparam ml_fix = 2
   \<and> free_parameters ml_fix = 1
   \<and> rsq_adj_free ml_fix None None = 3 / 4"
proof -
  have "rsq_adj ml_fix None None = Inr (Fin (1 / 2))"
    by (simp add: rsq_adj_def ml_fix_def py_sum_def pow2_def sub_scalar_def pd_mean_def
        sum64_def fsub_def)
  moreover have "nparam ml_fix = 2"
    by (simp add: ml_fix_def)
  moreover have "free_parameters ml_fix = 1"
    by (simp add: free_parameters_def ml_fix_def)
  moreover have "rsq_adj_free ml_fix None None = 3 / 4"
    by (simp add: rsq_adj_free_def free_parameters_def ml_fix_def)
  ultimately show ?thesis by simp
qed

text \<open>
  C2. For every string key other than "observations", "simulated", "residuals" and
  "innovations", and every window, \<open>bykey\<close> raises a ValueError whose message names the
  key; for each of the four keys it returns the series that the model's accessor of that
  name gives for the window, with the same time stamps and values.
\<close>

theorem bykey_dispatch:
  "(key \<notin> {''observations'', ''simulated'', ''residuals'', ''innovations''} \<longrightarrow>
      bykey ml key tmin tmax = Inl (ValueError (''no timeseries with key '' @ key)))
   \<and> bykey ml ''observations'' tmin tmax = Inr (observations ml tmin tmax)
   \<and> bykey ml ''simulated'' tmin tmax = Inr (simulate ml tmin tmax)
   \<and> bykey ml ''residuals'' tmin tmax = Inr (residuals ml tmin tmax)
   \<and> bykey ml ''innovations'' tmin tmax = Inr (innovations ml tmin tmax)"
  by (simp add: bykey_def)

theorem bykey_dispatch_witness:
  "''bogus'' \<notin> {''observations'', ''simulated'', ''residuals'', ''innovations''}
   \<and> bykey ml_const ''bogus'' None None = Inl (ValueError ''no timeseries with key bogus'')
   \<and> bykey ml_const ''residuals'' None None = Inr [(t0, Some 3)]"
  using bykey_dispatch [of "''bogus''" ml_const None None]
  by (simp add: ml_const_def)

text \<open>
  C3. The docstring of \<open>gxg\<close> says, as the claim does, that a ValueError is raised
  "when output argument is unknown", and the last branch of \<open>gxg\<close> raises it. The
  guard \<open>if not np.any(is14or28): return np.nan\<close> stands before that branch: on a
  series that keeps no time stamp on a 14th or 28th, \<open>gxg\<close> returns NaN and never
  looks at \<open>output\<close>. Here the simulated series has its one entry on 1 January 2000,
  \<open>output\<close> is "bogus", the other arguments are the defaults of \<open>ghg\<close>, and
  nothing is raised.
\<close>

theorem gxg_bogus_output_returns_nan:
  "gxg interpolate_linear mean_high ml_jan None None ''simulated'' (Some ''linear'') (Some 15)
     ''bogus'' = Inr (Scalar NaN)"
  by (simp add: gxg_cases bykey_def ml_jan_def resample_jan pd_mean_single fill_def
      interpolate_linear_def the14or28_def day_of_def civil_10957)

text \<open>
  C4. When the series that \<open>bykey\<close> returns, resampled to daily means and filled, has no
  time stamp on the 14th or 28th of a month, \<open>gxg\<close> returns NaN and raises nothing,
  whatever the aggregator and the \<open>output\<close> argument; so do \<open>ghg\<close>, \<open>glg\<close> and
  \<open>gvg\<close>.
\<close>

theorem gxg_nothing_retained:
  assumes "bykey ml key tmin tmax = Inr s"
    and "fill interpolate fill_method limit (resample_d pd_mean s) = Inr filled"
    and "\<forall>(x, v) \<in> set filled. day_of x \<noteq> 14 \<and> day_of x \<noteq> 28"
  shows "gxg interpolate year_agg ml tmin tmax key fill_method limit output = Inr (Scalar NaN)
     \<and> ghg interpolate ml tmin tmax key fill_method limit output = Inr (Scalar NaN)
     \<and> glg interpolate ml tmin tmax key fill_method limit output = Inr (Scalar NaN)
     \<and> gvg interpolate ml tmin tmax key fill_method limit output = Inr (Scalar NaN)"
proof -
  from assms(3) have "\<forall>(x, v) \<in> set filled. \<not> the14or28 x"
    by (auto simp: the14or28_def)
  with assms(1,2) have "gxg interpolate agg ml tmin tmax key fill_method limit output =
      Inr (Scalar NaN)" for agg
    by (simp add: gxg_cases)
  then show ?thesis
    by (simp add: ghg_def glg_def gvg_def)
qed

theorem gxg_nothing_retained_witness:
  "gxg interpolate_linear mean_low ml_jan None None ''observations'' None None ''yearly'' =
     Inr (Scalar NaN)
   \<and> ghg interpolate_linear ml_jan None None ''observations'' None None ''yearly'' =
     Inr (Scalar NaN)
   \<and> glg interpolate_linear ml_jan None None ''observations'' None None ''yearly'' =
     Inr (Scalar NaN)
   \<and> gvg interpolate_linear ml_jan None None ''observations'' None None ''yearly'' =
     Inr (Scalar NaN)"
proof -
  have h1: "bykey ml_jan ''observations'' None None = Inr [(date 2000 1 1, Some 1)]"
    by (simp add: bykey_def ml_jan_def)
  have h2: "fill interpolate_linear None None (resample_d pd_mean [(date 2000 1 1, Some 1)]) =
              Inr [(Timestamp 10957 0, Some 1)]"
    by (simp add: resample_jan pd_mean_single fill_def dropna_def)
  have h3: "\<forall>(x, v) \<in> set [(Timestamp 10957 0, Some (1::real))].
              day_of x \<noteq> 14 \<and> day_of x \<noteq> 28"
    by (simp add: day_of_def civil_10957)
  show ?thesis
    using gxg_nothing_retained [OF h1 h2 h3, of mean_low "''yearly''"] by simp
qed

text \<open>
  C5, as the claim states it, fails: \<open>d_ghg\<close>, \<open>d_glg\<close> and \<open>d_gvg\<close> do not call
  the presets \<open>ghg\<close>, \<open>glg\<close> and \<open>gvg\<close>. On \<open>ml_mar\<close> (observed 0 on
  14 March 2000, simulated 1 on 14 March and 5 on 15 March) the three presets give 1 for
  the simulation and 0 for the observations, a difference of 1, while \<open>d_ghg\<close> is 4.76,
  \<open>d_glg\<close> is 1.24 and \<open>d_gvg\<close> is 3.
\<close>

theorem d_ghg_is_not_preset_difference:
  "d_ghg ml_mar None None = Inr (Fin (119 / 25))
   \<and> ghg interpolate_linear ml_mar None None ''simulated'' (Some ''linear'') (Some 15) ''mean''
       = Inr (Scalar (Fin 1))
   \<and> ghg interpolate_linear ml_mar None None ''observations'' (Some ''linear'') (Some 15)
       ''mean'' = Inr (Scalar (Fin 0))
   \<and> d_glg ml_mar None None = Inr (Fin (31 / 25))
   \<and> glg interpolate_linear ml_mar None None ''simulated'' (Some ''linear'') (Some 15) ''mean''
       = Inr (Scalar (Fin 1))
   \<and> glg interpolate_linear ml_mar None None ''observations'' (Some ''linear'') (Some 15)
       ''mean'' = Inr (Scalar (Fin 0))
   \<and> d_gvg ml_mar None None = Inr (Fin 3)
   \<and> gvg interpolate_linear ml_mar None None ''simulated'' (Some ''linear'') (Some 15) ''mean''
       = Inr (Scalar (Fin 1))
   \<and> gvg interpolate_linear ml_mar None None ''observations'' (Some ''linear'') (Some 15)
       ''mean'' = Inr (Scalar (Fin 0))"
proof -
  have q1: "d_ghg ml_mar None None = Inr (Fin (119 / 25))"
    by (simp add: d_ghg_def q_ghg_def bykey_def ml_mar_def resample_mar_1 resample_mar_2
        pd_median_single pd_quantile_def q_ghg_default_def fsub_def)
  have q2: "d_glg ml_mar None None = Inr (Fin (31 / 25))"
    by (simp add: d_glg_def q_glg_def bykey_def ml_mar_def resample_mar_1 resample_mar_2
        pd_median_single pd_quantile_def q_glg_default_def fsub_def)
  have q3: "d_gvg ml_mar None None = Inr (Fin 3)"
    by (simp add: d_gvg_def q_gvg_cases bykey_def ml_mar_def resample_mar_1 resample_mar_2
        pd_median_single isinspring_def month_of_def day_of_def civil_11030 civil_11031
        pd_median_def fsub_def)
  have sim: "gxg interpolate_linear agg ml_mar None None ''simulated'' (Some ''linear'')
      (Some 15) ''mean'' =
      Inr (Scalar (to_float (pd_mean [agg [(Timestamp 11030 0, Some 1)]])))" for agg
    by (simp add: gxg_cases bykey_def ml_mar_def resample_mar_2 pd_mean_single fill_def
        interpolate_linear_def the14or28_def day_of_def civil_11030 civil_11031
        resample_a_single)
  have obs: "gxg interpolate_linear agg ml_mar None None ''observations'' (Some ''linear'')
      (Some 15) ''mean'' =
      Inr (Scalar (to_float (pd_mean [agg [(Timestamp 11030 0, Some 0)]])))" for agg
    by (simp add: gxg_cases bykey_def ml_mar_def resample_mar_1 pd_mean_single fill_def
        interpolate_linear_def the14or28_def day_of_def civil_11030
        resample_a_single)
  have hi: "mean_high [(Timestamp 11030 0, Some r)] = Some r" if "round53 r = r" for r
    using that by (simp add: mean_high_def nlargest_def dropna_def pd_mean_single)
  have lo: "mean_low [(Timestamp 11030 0, Some r)] = Some r" if "round53 r = r" for r
    using that by (simp add: mean_low_def nsmallest_def dropna_def pd_mean_single)
  have sp: "mean_spring [(Timestamp 11030 0, Some r)] = Some r" if "round53 r = r" for r
    using that
    by (simp add: mean_spring_cases isinspring_def month_of_def day_of_def civil_11030
        pd_mean_single)
  from q1 q2 q3 show ?thesis
    by (simp add: ghg_def glg_def gvg_def sim obs hi lo sp pd_mean_single)
qed

text \<open>
  C5, amended. For every window, \<open>d_ghg\<close> is \<open>q_ghg\<close> of the simulated series
  minus \<open>q_ghg\<close> of the observed series, both with the quantile 0.94; \<open>d_glg\<close> is the
  same difference of \<open>q_glg\<close> with the quantile 0.06, and \<open>d_gvg\<close> the same
  difference of \<open>q_gvg\<close>; none of the calls raises.
\<close>

theorem d_quantile_differences:
  "(\<exists>a b. q_ghg ml tmin tmax ''simulated'' q_ghg_default = Inr a
        \<and> q_ghg ml tmin tmax ''observations'' q_ghg_default = Inr b
        \<and> d_ghg ml tmin tmax = Inr (fsub a b))
   \<and> (\<exists>a b. q_glg ml tmin tmax ''simulated'' q_glg_default = Inr a
        \<and> q_glg ml tmin tmax ''observations'' q_glg_default = Inr b
        \<and> d_glg ml tmin tmax = Inr (fsub a b))
   \<and> (\<exists>a b. q_gvg ml tmin tmax ''simulated'' = Inr a
        \<and> q_gvg ml tmin tmax ''observations'' = Inr b
        \<and> d_gvg ml tmin tmax = Inr (fsub a b))"
proof -
  have 1: "\<exists>a. q_ghg ml tmin tmax key q_ghg_default = Inr a"
    if "key = ''simulated'' \<or> key = ''observations''" for key
    using that by (auto simp: q_ghg_def bykey_def pd_quantile_def Let_def q_ghg_default_def)
  have 2: "\<exists>a. q_glg ml tmin tmax key q_glg_default = Inr a"
    if "key = ''simulated'' \<or> key = ''observations''" for key
    using that by (auto simp: q_glg_def bykey_def pd_quantile_def Let_def q_glg_default_def)
  have 3: "\<exists>a. q_gvg ml tmin tmax key = Inr a"
    if "key = ''simulated'' \<or> key = ''observations''" for key
    using that by (auto simp: q_gvg_def bykey_def Let_def)
  from 1 [of "''simulated''"] 1 [of "''observations''"]
  have g: "\<exists>a b. q_ghg ml tmin tmax ''simulated'' q_ghg_default = Inr a
        \<and> q_ghg ml tmin tmax ''observations'' q_ghg_default = Inr b
        \<and> d_ghg ml tmin tmax = Inr (fsub a b)"
    by (auto simp: d_ghg_def)
  from 2 [of "''simulated''"] 2 [of "''observations''"]
  have l: "\<exists>a b. q_glg ml tmin tmax ''simulated'' q_glg_default = Inr a
        \<and> q_glg ml tmin tmax ''observations'' q_glg_default = Inr b
        \<and> d_glg ml tmin tmax = Inr (fsub a b)"
    by (auto simp: d_glg_def)
  from 3 [of "''simulated''"] 3 [of "''observations''"]
  have v: "\<exists>a b. q_gvg ml tmin tmax ''simulated'' = Inr a
        \<and> q_gvg ml tmin tmax ''observations'' = Inr b
        \<and> d_gvg ml tmin tmax = Inr (fsub a b)"
    by (auto simp: d_gvg_def)
  from g l v show ?thesis by blast
qed

theorem d_quantile_differences_witness:
  "d_ghg ml_mar None None = Inr (fsub (Fin (119 / 25)) (Fin 0))"
proof -
  have a: "q_ghg ml_mar None None ''simulated'' q_ghg_default = Inr (Fin (119 / 25))"
    by (simp add: q_ghg_def bykey_def ml_mar_def resample_mar_2 pd_median_single
        pd_quantile_def q_ghg_default_def)
  have b: "q_ghg ml_mar None None ''observations'' q_ghg_default = Inr (Fin 0)"
    by (simp add: q_ghg_def bykey_def ml_mar_def resample_mar_1 pd_median_single
        pd_quantile_def q_ghg_default_def)
  show ?thesis
    using d_quantile_differences [of ml_mar None None] a b by simp
qed




text \<open>
  C7. For every window in which the variance of the observations is a number other than
  zero, \<open>evp\<close> returns max(0, (var(obs) - var(res)) / var(obs) * 100) (and 0 when the
  residuals have no variance because none is present); the result lies between 0 and 100,
  and is 0 whenever the variance of the residuals is at least that of the observations.
\<close>

theorem evp_range:
  assumes "np_var (map snd (observations ml tmin tmax)) = Some vo" and "vo \<noteq> 0"
  shows "(case np_var (map snd (residuals ml tmin tmax)) of
            Some vr \<Rightarrow> evp ml tmin tmax = Fin (max 0 ((vo - vr) / vo * 100))
          | None \<Rightarrow> evp ml tmin tmax = Fin 0)
     \<and> (\<exists>r. evp ml tmin tmax = Fin r \<and> 0 \<le> r \<and> r \<le> 100)
     \<and> (\<forall>vr. np_var (map snd (residuals ml tmin tmax)) = Some vr \<and> vo \<le> vr \<longrightarrow>
            evp ml tmin tmax = Fin 0)"
proof -
  from assms have pos: "0 < vo"
    using np_var_nonneg [of "map snd (observations ml tmin tmax)" vo] by simp
  show ?thesis
  proof (cases "np_var (map snd (residuals ml tmin tmax))")
    case None
    with assms show ?thesis
      by (simp add: evp_def Let_def py_max_def fsub_def)
  next
    case (Some vr)
    then have vr: "0 \<le> vr" by (rule np_var_nonneg)
    have le: "(vo - vr) / vo * 100 \<le> 100"
      using pos vr by (simp add: divide_le_eq)
    have ev: "evp ml tmin tmax = Fin (max 0 ((vo - vr) / vo * 100))"
      using assms Some by (auto simp: evp_def Let_def py_max_def fsub_def max_def)
    have zero: "max 0 ((vo - vr) / vo * 100) = 0" if "vo \<le> vr"
    proof -
      from that pos have "(vo - vr) / vo * 100 \<le> 0"
        by (simp add: divide_le_0_iff)
      then show ?thesis by simp
    qed
    from ev le zero Some show ?thesis
      by auto
  qed
qed

theorem evp_range_witness:
  "np_var (map snd (observations ml_fix None None)) = Some (8 / 3)
   \<and> np_var (map snd (residuals ml_fix None None)) = Some (2 / 3)
   \<and> evp ml_fix None None = Fin 75"
proof -
  have h2: "(8 / 3 :: real) \<noteq> 0" by simp
  show ?thesis
    using evp_range [OF np_var_obs_fix h2] np_var_res_fix np_var_obs_fix by simp
qed

text \<open>
  C8. For every series that \<open>bykey\<close> returns and every window, \<open>q_gvg\<close> returns
  the median of the daily medians of the spring window, both as the specification words
  them: per calendar day from 14 March through 14 April on which the series holds a
  value, the median of the values of that day, and then the median of these. The result
  is NaN when there is no such day and the daily value itself when there is exactly one;
  a number that it returns has at least half of the daily medians on either side. In
  terms of the series itself: with no entry in the window the result is NaN, and with
  exactly one entry in the window the result is the value of that entry.
\<close>

theorem q_gvg_spring_median:
  assumes "bykey ml key tmin tmax = Inr s"
  shows "q_gvg ml tmin tmax key = Inr (to_float (spec_median (spring_daily_medians s)))
     \<and> (spring_daily_medians s = [] \<longrightarrow> q_gvg ml tmin tmax key = Inr NaN)
     \<and> (\<forall>r. spring_daily_medians s = [r] \<longrightarrow> q_gvg ml tmin tmax key = Inr (Fin r))
     \<and> (\<forall>m. q_gvg ml tmin tmax key = Inr (Fin m) \<longrightarrow> halves m (spring_daily_medians s))
     \<and> (filter (\<lambda>(x, v). spring_window x) s = [] \<longrightarrow> q_gvg ml tmin tmax key = Inr NaN)
     \<and> (\<forall>t v. filter (\<lambda>(x, v). spring_window x) s = [(t, v)] \<longrightarrow>
           q_gvg ml tmin tmax key = Inr (to_float v))"
proof -
  let ?D = "resample_d pd_median s"
  have filt: "filter (\<lambda>(x, v). isinspring x) ?D = daily_spring s"
    by (simp add: isinspring_window daily_spring_def)
  have code: "q_gvg ml tmin tmax key =
      (if \<exists>e \<in> set ?D. (\<lambda>(x, v). isinspring x) e
       then Inr (to_float (pd_median (map snd (filter (\<lambda>(x, v). isinspring x) ?D))))
       else Inr NaN)"
    using assms by (simp add: q_gvg_cases)
  have daily: "q_gvg ml tmin tmax key = Inr (to_float (pd_median (map snd (daily_spring s))))"
  proof (cases "daily_spring s = []")
    case True
    then have "\<not> (\<exists>e \<in> set ?D. (\<lambda>(x, v). isinspring x) e)"
      unfolding filt [symmetric] by (simp add: filter_empty_conv)
    with code True show ?thesis
      by (simp add: pd_median_def)
  next
    case False
    then have "\<exists>e \<in> set ?D. (\<lambda>(x, v). isinspring x) e"
      unfolding filt [symmetric] by (simp add: filter_empty_conv)
    with code show ?thesis
      by (simp add: filt)
  qed
  have main: "q_gvg ml tmin tmax key = Inr (to_float (spec_median (spring_daily_medians s)))"
    using daily by (simp add: pd_median_spec spring_medians_daily)
  have none: "q_gvg ml tmin tmax key = Inr NaN" if "spring_daily_medians s = []"
    using main that by (simp add: spec_median_def)
  have one: "q_gvg ml tmin tmax key = Inr (Fin r)" if "spring_daily_medians s = [r]" for r
    using main that by (simp add: spec_median_def)
  have half: "halves m (spring_daily_medians s)" if "q_gvg ml tmin tmax key = Inr (Fin m)" for m
  proof -
    from that main have "to_float (spec_median (spring_daily_medians s)) = Fin m"
      by simp
    then have "spec_median (spring_daily_medians s) = Some m"
      by (cases "spec_median (spring_daily_medians s)") simp_all
    then show ?thesis by (rule spec_median_halves)
  qed
  have src_none: "q_gvg ml tmin tmax key = Inr NaN"
    if "filter (\<lambda>(x, v). spring_window x) s = []"
    using daily daily_spring_none [OF that] by (simp add: pd_median_def)
  have src_one: "q_gvg ml tmin tmax key = Inr (to_float v)"
    if "filter (\<lambda>(x, v). spring_window x) s = [(t, v)]" for t v
    using daily daily_spring_single [OF that] by simp
  from main none one half src_none src_one show ?thesis
    by blast
qed

theorem q_gvg_spring_median_witness:
  "q_gvg ml_spring None None ''observations'' = Inr (Fin 4)
   \<and> spring_daily_medians obs_spring = [4, 1, 7, 2, 9]
   \<and> halves 4 [4, 1, 7, 2, 9]
   \<and> q_gvg ml_mar None None ''observations'' = Inr (Fin 0)
   \<and> q_gvg ml_jan None None ''observations'' = Inr NaN"
proof -
  have h1: "bykey ml_spring ''observations'' None None = Inr obs_spring"
    by (simp add: bykey_def ml_spring_def)
  have m1: "spec_median [4, 1, 7, 2, 9] = Some 4"
    by (simp add: spec_median_def)
  from q_gvg_spring_median [OF h1]
  have a: "q_gvg ml_spring None None ''observations'' = Inr (Fin 4)"
    and b: "halves 4 (spring_daily_medians obs_spring)"
    by (simp_all add: medians_spring m1)
  have h2: "bykey ml_mar ''observations'' None None = Inr [(date 2000 3 14, Some 0)]"
    by (simp add: bykey_def ml_mar_def)
  have w2: "filter (\<lambda>(x, v). spring_window x) [(date 2000 3 14, Some (0::real))] =
      [(date 2000 3 14, Some 0)]"
    by (simp add: date_2000_03_14 spring_window_def month_of_def day_of_def civil_11030
        less_eq_prod_def)
  from q_gvg_spring_median [OF h2] w2
  have "q_gvg ml_mar None None ''observations'' = Inr (to_float (Some 0))"
    by blast
  then have c: "q_gvg ml_mar None None ''observations'' = Inr (Fin 0)"
    by simp
  have h3: "bykey ml_jan ''observations'' None None = Inr [(date 2000 1 1, Some 1)]"
    by (simp add: bykey_def ml_jan_def)
  have w3: "filter (\<lambda>(x, v). spring_window x) [(date 2000 1 1, Some (1::real))] = []"
    by (simp add: date_2000_01_01 spring_window_def month_of_def day_of_def civil_10957
        less_eq_prod_def)
  from q_gvg_spring_median [OF h3] w3
  have d: "q_gvg ml_jan None None ''observations'' = Inr NaN"
    by blast
  from a b c d medians_spring show ?thesis
    by simp
qed

text \<open>
  C9. For every window and every list of statistic names from the tables of the class
  (the default list when \<open>stats\<close> is omitted or empty), \<open>many\<close> does what the
  specification says: it returns one row with a column per name, in order, and the value
  in each column is what the call of that statistic with the same window returns; it
  returns when every such call returns, and raises the error of the first call that
  raises.
\<close>

theorem many_columns:
  assumes "ks = (case stats of None \<Rightarrow> default_stats
                 | Some l \<Rightarrow> if l = [] then default_stats else l)"
    and "set ks \<subseteq> set statistic_names"
  shows "many ml tmin tmax stats = many_spec ml tmin tmax stats
     \<and> (\<forall>row. many ml tmin tmax stats = Inr row \<longrightarrow>
           map fst row = ks
           \<and> (\<forall>i < length ks. call_method ml (ks ! i) tmin tmax = Inr (snd (row ! i))))
     \<and> ((\<forall>k \<in> set ks. \<exists>v. call_method ml k tmin tmax = Inr v) \<longrightarrow>
           (\<exists>row. many ml tmin tmax stats = Inr row))"
proof -
  let ?call = "\<lambda>k. call_method ml k tmin tmax"
  have m: "many ml tmin tmax stats = many_loop ml tmin tmax (map (\<lambda>k. (k, NaN)) ks) ks"
    using assms(1) by (simp add: many_def default_stats_def split: option.splits)
  have s: "many_spec ml tmin tmax stats = collect_columns ?call ks"
    using assms(1) by (simp add: many_spec_def)
  have eq: "many ml tmin tmax stats = many_spec ml tmin tmax stats"
  proof (cases "collect_columns ?call ks")
    case (Inl e)
    then show ?thesis by (simp add: m s many_loop_collect)
  next
    case (Inr row)
    then have "row = map (\<lambda>k. (k, cell_value (?call k))) ks"
      by (rule collect_columns_row)
    with Inr show ?thesis
      by (simp add: m s many_loop_collect comp_def)
  qed
  have cols: "map fst row = ks
      \<and> (\<forall>i < length ks. ?call (ks ! i) = Inr (snd (row ! i)))"
    if "many ml tmin tmax stats = Inr row" for row
  proof -
    from that eq s have c: "collect_columns ?call ks = Inr row" by simp
    then have "row = map (\<lambda>k. (k, cell_value (?call k))) ks"
      by (rule collect_columns_row)
    then have "map fst row = ks" by (simp add: comp_def)
    with collect_columns_calls [OF c] show ?thesis by blast
  qed
  have tot: "\<exists>row. many ml tmin tmax stats = Inr row"
    if "\<forall>k \<in> set ks. \<exists>v. ?call k = Inr v"
    using collect_columns_total [OF that] eq s by simp
  from eq cols tot show ?thesis by blast
qed

theorem many_columns_witness:
  "many ml_fix None None (Some [''evp'', ''rmse'']) =
     Inr [(''evp'', Fin 75), (''rmse'', Fin (sqrt (2 / 3)))]"
proof -
  have h1: "[''evp'', ''rmse''] =
      (case Some [''evp'', ''rmse''] of None \<Rightarrow> default_stats
       | Some l \<Rightarrow> if l = [] then default_stats else l)"
    by simp
  have h2: "set [''evp'', ''rmse''] \<subseteq> set statistic_names"
    by (simp add: statistic_names_def)
  have "many_spec ml_fix None None (Some [''evp'', ''rmse'']) =
     Inr [(''evp'', Fin 75), (''rmse'', Fin (sqrt (2 / 3)))]"
    by (simp add: many_spec_def call_method_def evp_fix rmse_fix)
  with many_columns [OF h1 h2, of ml_fix None None] show ?thesis
    by simp
qed

text \<open>
  C10. For every string other than "all", "basic" and "dutch", and every model and
  window, \<open>summary\<close> raises KeyError with that string: the lookup in the dictionary of
  groups fails, no statistic is called and no group is taken in its place. (On
  \<open>ml_year\<close> the statistics of the group "basic" raise ZeroDivisionError, and an
  unknown group still raises KeyError.)
\<close>

theorem summary_unknown_preset:
  "selected \<notin> {''all'', ''basic'', ''dutch''} \<Longrightarrow>
     summary ml selected tmin tmax = Inl (KeyError selected)"
  by (simp add: summary_def output_groups_def)

theorem summary_unknown_preset_witness:
  "''bogus'' \<notin> {''all'', ''basic'', ''dutch''}
   \<and> summary ml_const ''bogus'' None None = Inl (KeyError ''bogus'')
   \<and> summary ml_year ''bogus'' None None = Inl (KeyError ''bogus'')
   \<and> summary ml_year ''basic'' None None = Inl ZeroDivisionError"
  using summary_unknown_preset [of "''bogus''" ml_const None None]
    summary_unknown_preset [of "''bogus''" ml_year None None] summary_basic_year
  by simp

end
